theory Spec2Isabelle
  imports Complex_Main "HOL-Library.Multiset"
begin

section \<open>The document library, as far as the object model uses it\<close>

text \<open>
  PoDoFo is an external library. Only the interface that \<^verbatim>\<open>pdfobjectmodel.cpp\<close> calls is
  modelled: objects as a tagged union, dictionaries as key/object lists in their stored
  order, arrays as object lists, and the table of indirect objects of a document.
\<close>

type_synonym PdfName = string

definition KeyNull :: PdfName where
  "KeyNull = []"

datatype PdfReference = PdfReference (ObjectNumber: nat) (GenerationNumber: nat)

datatype PdfObject =
    PdfNull
  | PdfBool bool
  | PdfNumber int
  | PdfReal real
  | PdfString string
  | PdfHexString string
  | PdfNameValue PdfName
  | PdfArray "PdfObject list"
  | PdfDictionary "(PdfName \<times> PdfObject) list"
  | PdfReferenceValue PdfReference
  | PdfRawData string

fun IsDictionary :: "PdfObject \<Rightarrow> bool" where
  "IsDictionary (PdfDictionary kvs) = True"
| "IsDictionary _ = False"

fun IsArray :: "PdfObject \<Rightarrow> bool" where
  "IsArray (PdfArray xs) = True"
| "IsArray _ = False"

fun IsReference :: "PdfObject \<Rightarrow> bool" where
  "IsReference (PdfReferenceValue r) = True"
| "IsReference _ = False"

text \<open>The getters are only called behind the matching \<open>Is...\<close> test.\<close>

fun GetKeys :: "PdfObject \<Rightarrow> (PdfName \<times> PdfObject) list" where
  "GetKeys (PdfDictionary kvs) = kvs"
| "GetKeys _ = []"

fun GetArray :: "PdfObject \<Rightarrow> PdfObject list" where
  "GetArray (PdfArray xs) = xs"
| "GetArray _ = []"

fun GetReference :: "PdfObject \<Rightarrow> PdfReference" where
  "GetReference (PdfReferenceValue r) = r"
| "GetReference _ = PdfReference 0 0"

definition HasKey :: "PdfObject \<Rightarrow> PdfName \<Rightarrow> bool" where
  "HasKey obj k = (k \<in> fst ` set (GetKeys obj))"

definition GetKey :: "PdfObject \<Rightarrow> PdfName \<Rightarrow> PdfObject option" where
  "GetKey obj k = map_of (GetKeys obj) k"

text \<open>
  \<^verbatim>\<open>PdfDictionary::AddKey\<close>: an entry of that name is replaced, otherwise the entry is
  added. The object model only calls it for a key the dictionary does not have.
\<close>

definition AddKey :: "PdfName \<Rightarrow> PdfObject \<Rightarrow> PdfObject \<Rightarrow> PdfObject" where
  "AddKey k v obj = PdfDictionary (filter (\<lambda>kv. fst kv \<noteq> k) (GetKeys obj) @ [(k, v)])"

text \<open>\<^verbatim>\<open>std::vector::insert\<close> before position \<open>row\<close>.\<close>

definition array_insert :: "nat \<Rightarrow> PdfObject \<Rightarrow> PdfObject list \<Rightarrow> PdfObject list" where
  "array_insert row v a = take row a @ v # drop row a"

subsection \<open>Object identity\<close>

text \<open>
  The model keys its alias index by the address of a \<^verbatim>\<open>PdfObject\<close>. An object lives either
  in the document's table of indirect objects or inside a container that lives there,
  so its address is the reference of the owning indirect object and the path of
  dictionary keys and array slots that leads to it.
\<close>

datatype slot = KeySlot PdfName | ElementSlot nat

datatype obj_ptr = ObjPtr PdfReference "slot list"

fun inside :: "obj_ptr \<Rightarrow> slot \<Rightarrow> obj_ptr" where
  "inside (ObjPtr r path) s = ObjPtr r (path @ [s])"

fun walk :: "PdfObject \<Rightarrow> slot list \<Rightarrow> PdfObject option" where
  "walk obj [] = Some obj"
| "walk (PdfDictionary kvs) (KeySlot k # path) =
     (case map_of kvs k of None \<Rightarrow> None | Some v \<Rightarrow> walk v path)"
| "walk (PdfArray xs) (ElementSlot i # path) =
     (if i < length xs then walk (xs ! i) path else None)"
| "walk _ _ = None"

fun put_at :: "PdfObject \<Rightarrow> slot list \<Rightarrow> PdfObject \<Rightarrow> PdfObject option" where
  "put_at obj [] v = Some v"
| "put_at (PdfDictionary kvs) (KeySlot k # path) v =
     (case map_of kvs k of None \<Rightarrow> None
      | Some c \<Rightarrow> (case put_at c path v of None \<Rightarrow> None
          | Some c' \<Rightarrow> Some (PdfDictionary (map (\<lambda>kv. if fst kv = k then (k, c') else kv) kvs))))"
| "put_at (PdfArray xs) (ElementSlot i # path) v =
     (if i < length xs
      then (case put_at (xs ! i) path v of None \<Rightarrow> None
          | Some c' \<Rightarrow> Some (PdfArray (xs[i := c'])))
      else None)"
| "put_at _ _ _ = None"

record PdfDocument =
  Trailer :: PdfObject
  Objects :: "PdfReference \<Rightarrow> PdfObject option"

text \<open>\<^verbatim>\<open>doc->GetObjects().GetObject(ref)\<close>: the address of the indirect object, or NULL.\<close>

definition GetObject :: "PdfDocument \<Rightarrow> PdfReference \<Rightarrow> obj_ptr option" where
  "GetObject doc r = (case Objects doc r of None \<Rightarrow> None | Some obj \<Rightarrow> Some (ObjPtr r []))"

text \<open>Reading and overwriting through an object pointer; \<open>None\<close> when it dangles.\<close>

fun deref :: "PdfDocument \<Rightarrow> obj_ptr \<Rightarrow> PdfObject option" where
  "deref doc (ObjPtr r path) =
     (case Objects doc r of None \<Rightarrow> None | Some obj \<Rightarrow> walk obj path)"

fun assign :: "PdfDocument \<Rightarrow> obj_ptr \<Rightarrow> PdfObject \<Rightarrow> PdfDocument option" where
  "assign doc (ObjPtr r path) v =
     (case Objects doc r of None \<Rightarrow> None
      | Some obj \<Rightarrow> (case put_at obj path v of None \<Rightarrow> None
          | Some obj' \<Rightarrow> Some (doc\<lparr>Objects := (Objects doc)(r \<mapsto> obj')\<rparr>)))"

text \<open>
  \<^verbatim>\<open>PdfTokenizer::GetNextVariant\<close> on a byte buffer: the parsed value, or the code of the
  \<^verbatim>\<open>PdfError\<close> it throws. The tokenizer is external; the operations take it as a parameter.
\<close>

type_synonym tokenizer = "string \<Rightarrow> nat + PdfObject"

section \<open>Failures\<close>

text \<open>
  The exceptions the code throws, a failed \<^verbatim>\<open>assert\<close>, and the accesses C++ leaves
  undefined (a null or dangling pointer, an iterator moved past the end). An operation
  ends by returning a value or by throwing, in both cases with the state it has reached.
\<close>

datatype error =
    invalid_argument
  | logic_error
  | PdfError nat
  | assertion_failed
  | undefined_behaviour

datatype ('a, 's) outcome = Return 'a 's | Throw error 's

fun state_of :: "('a, 's) outcome \<Rightarrow> 's" where
  "state_of (Return a s) = s"
| "state_of (Throw e s) = s"

section \<open>Model nodes and the model tree\<close>

type_synonym node_ptr = nat

datatype ParentageType = PT_Contained | PT_Referenced | PT_Root

text \<open>
  A node owns its children, so the nodes of a tree form a datatype. \<open>this_ptr\<close> is the
  address of the node: the alias index and the view's indexes hold such addresses.
\<close>

datatype PdfObjectModelNode = ModelNode
  (this_ptr: node_ptr)
  (m_bPretendEmpty: bool)
  (m_bChildrenLoaded: bool)
  (m_pObject: obj_ptr)
  (m_parentType: ParentageType)
  (m_pParent: "node_ptr option")
  (m_parentKey: PdfName)
  (m_children: "PdfObjectModelNode list")

fun set_bPretendEmpty :: "PdfObjectModelNode \<Rightarrow> bool \<Rightarrow> PdfObjectModelNode" where
  "set_bPretendEmpty (ModelNode p pe cl ob pt pp pk cs) b = ModelNode p b cl ob pt pp pk cs"

fun set_bChildrenLoaded :: "PdfObjectModelNode \<Rightarrow> bool \<Rightarrow> PdfObjectModelNode" where
  "set_bChildrenLoaded (ModelNode p pe cl ob pt pp pk cs) b = ModelNode p pe b ob pt pp pk cs"

fun set_children :: "PdfObjectModelNode \<Rightarrow> PdfObjectModelNode list \<Rightarrow> PdfObjectModelNode" where
  "set_children (ModelNode p pe cl ob pt pp pk cs) cs' = ModelNode p pe cl ob pt pp pk cs'"

text \<open>
  The tree: the document it points to, the flag, the alias multimap (entries of one key
  in insertion order) and the root node. \<open>next_ptr\<close> is the allocator: the address
  \<^verbatim>\<open>new\<close> returns next.
\<close>

record PdfObjectModelTree =
  m_pDoc :: PdfDocument
  m_bFollowReferences :: bool
  m_nodeAliases :: "(obj_ptr \<times> node_ptr) list"
  m_pRoot :: PdfObjectModelNode
  next_ptr :: node_ptr


definition GetAliases :: "PdfObjectModelTree \<Rightarrow> obj_ptr \<Rightarrow> node_ptr list" where
  "GetAliases t item = map snd (filter (\<lambda>e. fst e = item) (m_nodeAliases t))"

definition NodeCreated :: "PdfObjectModelTree \<Rightarrow> PdfObjectModelNode \<Rightarrow> PdfObjectModelTree" where
  "NodeCreated t node =
     t\<lparr>m_nodeAliases := m_nodeAliases t @ [(m_pObject node, this_ptr node)]\<rparr>"

text \<open>
  \<^verbatim>\<open>NodeDeleted\<close> scans the entries of the node's object for the node and erases the first
  such entry; without one it throws. (Where the scan would run off the end of the map the
  C++ reads the end iterator; the model takes the throw that the code is written for.)
\<close>

definition NodeDeleted ::
  "PdfObjectModelTree \<Rightarrow> PdfObjectModelNode \<Rightarrow> (unit, PdfObjectModelTree) outcome" where
  "NodeDeleted t node =
     (if (m_pObject node, this_ptr node) \<in> set (m_nodeAliases t)
      then Return () (t\<lparr>m_nodeAliases := remove1 (m_pObject node, this_ptr node) (m_nodeAliases t)\<rparr>)
      else Throw logic_error t)"

text \<open>The constructor of a node, run on freshly allocated memory.\<close>

definition new_PdfObjectModelNode ::
  "PdfObjectModelTree \<Rightarrow> obj_ptr \<Rightarrow> node_ptr option \<Rightarrow> PdfName \<Rightarrow> ParentageType
    \<Rightarrow> (PdfObjectModelNode, PdfObjectModelTree) outcome" where
  "new_PdfObjectModelNode t object parent parentKey parentType =
     (let node = ModelNode (next_ptr t) False False object parentType parent parentKey []
      in if parentType \<noteq> PT_Root \<and> parent = None then Throw invalid_argument t
         else Return node (NodeCreated (t\<lparr>next_ptr := Suc (next_ptr t)\<rparr>) node))"

text \<open>
  The destructor: \<^verbatim>\<open>InvalidateChildren()\<close>, that is \<^verbatim>\<open>delete\<close> on every child in order, then
  \<^verbatim>\<open>NodeDeleted(this)\<close>.
\<close>

fun delete_PdfObjectModelNode ::
  "PdfObjectModelNode \<Rightarrow> PdfObjectModelTree \<Rightarrow> (unit, PdfObjectModelTree) outcome"
and delete_each ::
  "PdfObjectModelNode list \<Rightarrow> PdfObjectModelTree \<Rightarrow> (unit, PdfObjectModelTree) outcome" where
  "delete_PdfObjectModelNode (ModelNode p pe cl ob pt pp pk cs) t =
     (case delete_each cs t of
        Throw e t' \<Rightarrow> Throw e t'
      | Return u t' \<Rightarrow> NodeDeleted t' (ModelNode p pe cl ob pt pp pk cs))"
| "delete_each [] t = Return () t"
| "delete_each (c # cs) t =
     (case delete_PdfObjectModelNode c t of
        Throw e t' \<Rightarrow> Throw e t'
      | Return u t' \<Rightarrow> delete_each cs t')"

text \<open>
  The methods of a node take the tree and the node (\<^verbatim>\<open>this\<close>) and give both back. They
  never touch \<open>m_pRoot\<close>; a call through a pointer (\<open>via\<close>, below) writes the node back.
\<close>

type_synonym node_state = "PdfObjectModelTree \<times> PdfObjectModelNode"

definition InvalidateChildren ::
  "PdfObjectModelTree \<Rightarrow> PdfObjectModelNode \<Rightarrow> (unit, node_state) outcome" where
  "InvalidateChildren t this =
     (case delete_each (m_children this) t of
        Throw e t' \<Rightarrow> Throw e (t', this)
      | Return u t' \<Rightarrow> Return () (t', set_bChildrenLoaded (set_children this []) False))"

definition AddNode ::
  "PdfObjectModelTree \<Rightarrow> PdfObjectModelNode \<Rightarrow> obj_ptr \<Rightarrow> ParentageType \<Rightarrow> PdfName
    \<Rightarrow> (unit, node_state) outcome" where
  "AddNode t this object pt parentKey =
     (case new_PdfObjectModelNode t object (Some (this_ptr this)) parentKey pt of
        Throw e t' \<Rightarrow> Throw e (t', this)
      | Return child t' \<Rightarrow> Return () (t', set_children this (m_children this @ [child])))"

text \<open>The two \<^verbatim>\<open>for\<close> loops of \<^verbatim>\<open>PopulateChildren\<close>: one \<^verbatim>\<open>AddNode\<close> per entry, in order.\<close>

fun AddNodes ::
  "(obj_ptr \<times> ParentageType \<times> PdfName) list \<Rightarrow> PdfObjectModelTree \<Rightarrow> PdfObjectModelNode
    \<Rightarrow> (unit, node_state) outcome" where
  "AddNodes [] t this = Return () (t, this)"
| "AddNodes ((object, pt, parentKey) # rest) t this =
     (case AddNode t this object pt parentKey of
        Throw e s \<Rightarrow> Throw e s
      | Return u (t', this') \<Rightarrow> AddNodes rest t' this')"

definition PopulateChildren ::
  "PdfObjectModelTree \<Rightarrow> PdfObjectModelNode \<Rightarrow> (unit, node_state) outcome" where
  "PopulateChildren t this =
     (if m_bChildrenLoaded this then Throw assertion_failed (t, this)
      else case deref (m_pDoc t) (m_pObject this) of
        None \<Rightarrow> Throw undefined_behaviour (t, this)
      | Some obj \<Rightarrow>
         (case
            (if m_bFollowReferences t \<and> IsReference obj then
               (case GetObject (m_pDoc t) (GetReference obj) of
                  Some referee \<Rightarrow> AddNode t this referee PT_Referenced KeyNull
                | None \<Rightarrow> Return () (t, this))
             else if IsDictionary obj then
               AddNodes (map (\<lambda>kv. (inside (m_pObject this) (KeySlot (fst kv)), PT_Contained, fst kv))
                           (GetKeys obj)) t this
             else if IsArray obj then
               AddNodes (map (\<lambda>i. (inside (m_pObject this) (ElementSlot i), PT_Contained, KeyNull))
                           [0 ..< length (GetArray obj)]) t this
             else Return () (t, this))
          of Throw e s \<Rightarrow> Throw e s
           | Return u (t', this') \<Rightarrow> Return () (t', set_bChildrenLoaded this' True)))"

definition EnsureChildrenLoaded ::
  "PdfObjectModelTree \<Rightarrow> PdfObjectModelNode \<Rightarrow> (unit, node_state) outcome" where
  "EnsureChildrenLoaded t this =
     (if \<not> m_bChildrenLoaded this then PopulateChildren t this else Return () (t, this))"

definition IsPretendEmpty :: "PdfObjectModelNode \<Rightarrow> bool" where
  "IsPretendEmpty this = m_bPretendEmpty this"

definition SetPretendEmpty :: "PdfObjectModelNode \<Rightarrow> bool \<Rightarrow> PdfObjectModelNode" where
  "SetPretendEmpty this b = set_bPretendEmpty this b"

definition CountChildren ::
  "PdfObjectModelTree \<Rightarrow> PdfObjectModelNode \<Rightarrow> (int, node_state) outcome" where
  "CountChildren t this =
     (if IsPretendEmpty this then Return 0 (t, this)
      else case EnsureChildrenLoaded t this of
        Throw e s \<Rightarrow> Throw e s
      | Return u (t', this') \<Rightarrow> Return (int (length (m_children this'))) (t', this'))"

text \<open>
  \<^verbatim>\<open>GetChild(n)\<close> compares the \<^verbatim>\<open>int\<close> with the unsigned size, so a negative \<open>n\<close> is out of
  range too. The result is the child's address, \<open>None\<close> for the null pointer.
\<close>

definition GetChild ::
  "PdfObjectModelTree \<Rightarrow> PdfObjectModelNode \<Rightarrow> int \<Rightarrow> (node_ptr option, node_state) outcome" where
  "GetChild t this n =
     (if IsPretendEmpty this then Return None (t, this)
      else case EnsureChildrenLoaded t this of
        Throw e s \<Rightarrow> Throw e s
      | Return u (t', this') \<Rightarrow>
          Return (if 0 \<le> n \<and> nat n < length (m_children this')
                  then Some (this_ptr (m_children this' ! nat n)) else None) (t', this'))"

definition CanInsertElement ::
  "PdfObjectModelTree \<Rightarrow> PdfObjectModelNode \<Rightarrow> int \<Rightarrow> (bool, node_state) outcome" where
  "CanInsertElement t this row =
     (if \<not> row > 0 then Return False (t, this)
      else case CountChildren t this of
        Throw e s \<Rightarrow> Throw e s
      | Return n (t', this') \<Rightarrow>
          (if \<not> row \<le> n then Return False (t', this')
           else case deref (m_pDoc t') (m_pObject this') of
             None \<Rightarrow> Throw undefined_behaviour (t', this')
           | Some obj \<Rightarrow> Return (IsArray obj) (t', this')))"

definition InsertElement ::
  "PdfObjectModelTree \<Rightarrow> PdfObjectModelNode \<Rightarrow> int \<Rightarrow> (unit, node_state) outcome" where
  "InsertElement t this row =
     (case CanInsertElement t this row of
        Throw e s \<Rightarrow> Throw e s
      | Return ok (t', this') \<Rightarrow>
          (if \<not> ok then Throw assertion_failed (t', this')
           else case deref (m_pDoc t') (m_pObject this') of
             None \<Rightarrow> Throw undefined_behaviour (t', this')
           | Some obj \<Rightarrow>
               (if \<not> nat row \<le> length (GetArray obj) then Throw undefined_behaviour (t', this')
                else case assign (m_pDoc t') (m_pObject this')
                            (PdfArray (array_insert (nat row) PdfNull (GetArray obj))) of
                  None \<Rightarrow> Throw undefined_behaviour (t', this')
                | Some doc' \<Rightarrow> Return () (t'\<lparr>m_pDoc := doc'\<rparr>, this'))))"

definition CanInsertKey ::
  "PdfObjectModelTree \<Rightarrow> PdfObjectModelNode \<Rightarrow> PdfName \<Rightarrow> (bool, node_state) outcome" where
  "CanInsertKey t this keyName =
     (if \<not> keyName \<noteq> KeyNull then Return False (t, this)
      else case deref (m_pDoc t) (m_pObject this) of
        None \<Rightarrow> Throw undefined_behaviour (t, this)
      | Some obj \<Rightarrow> Return (IsDictionary obj \<and> \<not> HasKey obj keyName) (t, this))"

definition InsertKey ::
  "PdfObjectModelTree \<Rightarrow> PdfObjectModelNode \<Rightarrow> PdfName \<Rightarrow> (unit, node_state) outcome" where
  "InsertKey t this keyName =
     (case CanInsertKey t this keyName of
        Throw e s \<Rightarrow> Throw e s
      | Return ok (t', this') \<Rightarrow>
          (if \<not> ok then Throw assertion_failed (t', this')
           else case deref (m_pDoc t') (m_pObject this') of
             None \<Rightarrow> Throw undefined_behaviour (t', this')
           | Some obj \<Rightarrow>
               (case assign (m_pDoc t') (m_pObject this') (AddKey keyName PdfNull obj) of
                  None \<Rightarrow> Throw undefined_behaviour (t', this')
                | Some doc' \<Rightarrow> Return () (t'\<lparr>m_pDoc := doc'\<rparr>, this'))))"

definition SetRawData ::
  "tokenizer \<Rightarrow> PdfObjectModelTree \<Rightarrow> PdfObjectModelNode \<Rightarrow> string \<Rightarrow> (bool, node_state) outcome" where
  "SetRawData GetNextVariant t this data =
     (case GetNextVariant data of
        Inl code \<Rightarrow> Throw (PdfError code) (t, this)
      | Inr variant \<Rightarrow>
          (case InvalidateChildren t this of
             Throw e s \<Rightarrow> Throw e s
           | Return u (t', this') \<Rightarrow>
               (case assign (m_pDoc t') (m_pObject this') variant of
                  None \<Rightarrow> Throw undefined_behaviour (t', this')
                | Some doc' \<Rightarrow> Return True (t'\<lparr>m_pDoc := doc'\<rparr>, this'))))"

section \<open>Calls through node pointers\<close>

text \<open>
  The node at an address, searched from the root, and the tree with the node at that
  address replaced.
\<close>

fun find_node :: "PdfObjectModelNode \<Rightarrow> node_ptr \<Rightarrow> PdfObjectModelNode option"
and find_among :: "PdfObjectModelNode list \<Rightarrow> node_ptr \<Rightarrow> PdfObjectModelNode option" where
  "find_node (ModelNode q pe cl ob pt pp pk cs) p =
     (if q = p then Some (ModelNode q pe cl ob pt pp pk cs) else find_among cs p)"
| "find_among [] p = None"
| "find_among (c # cs) p =
     (case find_node c p of Some n \<Rightarrow> Some n | None \<Rightarrow> find_among cs p)"

fun write_node :: "node_ptr \<Rightarrow> PdfObjectModelNode \<Rightarrow> PdfObjectModelNode \<Rightarrow> PdfObjectModelNode" where
  "write_node p new (ModelNode q pe cl ob pt pp pk cs) =
     (if q = p then new else ModelNode q pe cl ob pt pp pk (map (write_node p new) cs))"

text \<open>\<^verbatim>\<open>node->method(...)\<close>: a dangling pointer is undefined behaviour.\<close>

definition via ::
  "node_ptr \<Rightarrow> (PdfObjectModelTree \<Rightarrow> PdfObjectModelNode \<Rightarrow> ('a, node_state) outcome)
    \<Rightarrow> PdfObjectModelTree \<Rightarrow> ('a, PdfObjectModelTree) outcome" where
  "via p method t =
     (case find_node (m_pRoot t) p of
        None \<Rightarrow> Throw undefined_behaviour t
      | Some this \<Rightarrow>
          (case method t this of
             Return a (t', this') \<Rightarrow> Return a (t'\<lparr>m_pRoot := write_node p this' (m_pRoot t')\<rparr>)
           | Throw e (t', this') \<Rightarrow> Throw e (t'\<lparr>m_pRoot := write_node p this' (m_pRoot t')\<rparr>)))"

text \<open>All nodes of a subtree, the node itself first: the live nodes below and at a node.\<close>

fun nodes_of :: "PdfObjectModelNode \<Rightarrow> PdfObjectModelNode list" where
  "nodes_of (ModelNode q pe cl ob pt pp pk cs) =
     ModelNode q pe cl ob pt pp pk cs # concat (map nodes_of cs)"

fun position :: "'a \<Rightarrow> 'a list \<Rightarrow> nat option" where
  "position x [] = None"
| "position x (y # ys) =
     (if y = x then Some 0 else (case position x ys of None \<Rightarrow> None | Some i \<Rightarrow> Some (Suc i)))"

definition GetIndexInParent :: "PdfObjectModelTree \<Rightarrow> node_ptr \<Rightarrow> (int, PdfObjectModelTree) outcome" where
  "GetIndexInParent t p =
     (case find_node (m_pRoot t) p of
        None \<Rightarrow> Throw undefined_behaviour t
      | Some this \<Rightarrow>
          (case m_pParent this of
             None \<Rightarrow> (if p = this_ptr (m_pRoot t) then Return 0 t else Throw assertion_failed t)
           | Some pp \<Rightarrow>
               (case find_node (m_pRoot t) pp of
                  None \<Rightarrow> Throw undefined_behaviour t
                | Some parent \<Rightarrow>
                    (case position p (map this_ptr (m_children parent)) of
                       None \<Rightarrow> Throw logic_error t
                     | Some counter \<Rightarrow> Return (int counter) t))))"

text \<open>
  The constructor of the tree: an empty alias map, then the root node, which registers
  itself. The destructor deletes the root and asserts that the alias map is empty.
\<close>

definition new_PdfObjectModelTree :: "PdfDocument \<Rightarrow> obj_ptr \<Rightarrow> bool \<Rightarrow> PdfObjectModelTree" where
  "new_PdfObjectModelTree doc rootObject followReferences =
     (let node = ModelNode 0 False False rootObject PT_Root None KeyNull []
      in NodeCreated \<lparr>m_pDoc = doc, m_bFollowReferences = followReferences,
                       m_nodeAliases = [], m_pRoot = node, next_ptr = Suc 0\<rparr> node)"


section \<open>The table model\<close>

datatype QModelIndex = InvalidIndex | createIndex int int node_ptr

fun isValid :: "QModelIndex \<Rightarrow> bool" where
  "isValid InvalidIndex = False"
| "isValid (createIndex r c p) = True"

fun internalPointer :: "QModelIndex \<Rightarrow> node_ptr option" where
  "internalPointer InvalidIndex = None"
| "internalPointer (createIndex r c p) = Some p"

fun column :: "QModelIndex \<Rightarrow> int" where
  "column InvalidIndex = - 1"
| "column (createIndex r c p) = c"

text \<open>The notifications the model sends to its views, in the order sent.\<close>

datatype signal =
    beginRemoveRows QModelIndex int int
  | endRemoveRows
  | beginInsertRows QModelIndex int int
  | endInsertRows
  | dataChanged QModelIndex QModelIndex

record PdfObjectModel =
  m_bDocChanged :: bool
  m_pTree :: "PdfObjectModelTree option"
  emitted :: "signal list"

definition emit :: "signal \<Rightarrow> PdfObjectModel \<Rightarrow> PdfObjectModel" where
  "emit s m = m\<lparr>emitted := emitted m @ [s]\<rparr>"

definition and_then :: "('a, 's) outcome \<Rightarrow> ('a \<Rightarrow> 's \<Rightarrow> ('b, 's) outcome) \<Rightarrow> ('b, 's) outcome" where
  "and_then r f = (case r of Return a s \<Rightarrow> f a s | Throw e s \<Rightarrow> Throw e s)"

text \<open>An operation of the tree, run on \<open>m_pTree\<close>; a null tree pointer is undefined behaviour.\<close>

definition on_tree ::
  "(PdfObjectModelTree \<Rightarrow> ('a, PdfObjectModelTree) outcome) \<Rightarrow> PdfObjectModel
    \<Rightarrow> ('a, PdfObjectModel) outcome" where
  "on_tree f m =
     (case m_pTree m of
        None \<Rightarrow> Throw undefined_behaviour m
      | Some t \<Rightarrow>
          (case f t of
             Return a t' \<Rightarrow> Return a (m\<lparr>m_pTree := Some t'\<rparr>)
           | Throw e t' \<Rightarrow> Throw e (m\<lparr>m_pTree := Some t'\<rparr>)))"

definition setupModelData :: "PdfObjectModel \<Rightarrow> PdfDocument \<Rightarrow> (unit, PdfObjectModel) outcome" where
  "setupModelData m doc =
     (let trailer = Trailer doc in
      if \<not> IsDictionary trailer then Throw invalid_argument m
      else if \<not> HasKey trailer ''Root'' then Throw invalid_argument m
      else case GetKey trailer ''Root'' of
        None \<Rightarrow> Throw invalid_argument m
      | Some catalogRef \<Rightarrow>
          (if \<not> IsReference catalogRef then Throw invalid_argument m
           else case GetObject doc (GetReference catalogRef) of
             None \<Rightarrow> Throw invalid_argument m
           | Some catalog \<Rightarrow>
               (case deref doc catalog of
                  None \<Rightarrow> Throw invalid_argument m
                | Some obj \<Rightarrow>
                    (if \<not> IsDictionary obj then Throw invalid_argument m
                     else Return () (m\<lparr>m_pTree := Some (new_PdfObjectModelTree doc catalog True)\<rparr>)))))"

definition new_PdfObjectModel :: "PdfDocument \<Rightarrow> (unit, PdfObjectModel) outcome" where
  "new_PdfObjectModel doc = setupModelData \<lparr>m_bDocChanged = False, m_pTree = None, emitted = []\<rparr> doc"

text \<open>The loop of \<^verbatim>\<open>PrepareForSubtreeChange\<close> over the aliases.\<close>

fun prepare_aliases ::
  "obj_ptr \<Rightarrow> int \<Rightarrow> node_ptr list \<Rightarrow> PdfObjectModel \<Rightarrow> (unit, PdfObjectModel) outcome" where
  "prepare_aliases obj childCount [] m = Return () m"
| "prepare_aliases obj childCount (it # rest) m =
     and_then (on_tree (via it (\<lambda>t this. Return (m_pObject this) (t, this))) m) (\<lambda>o1 m1.
       if obj \<noteq> o1 then Throw assertion_failed m1 else
     and_then (on_tree (via it CountChildren) m1) (\<lambda>c m2.
       if childCount \<noteq> c then Throw assertion_failed m2 else
     and_then (on_tree (\<lambda>t. GetIndexInParent t it) m2) (\<lambda>r m3.
     and_then (on_tree (via it CountChildren) m3) (\<lambda>c' m4.
     and_then (on_tree (via it InvalidateChildren) (emit (beginRemoveRows (createIndex r 0 it) 0 (c' - 1)) m4)) (\<lambda>u m5.
     and_then (on_tree (via it (\<lambda>t this. Return () (t, SetPretendEmpty this True))) m5) (\<lambda>u m6.
     prepare_aliases obj childCount rest (emit endRemoveRows m6)))))))"

definition PrepareForSubtreeChange :: "PdfObjectModel \<Rightarrow> QModelIndex \<Rightarrow> (unit, PdfObjectModel) outcome" where
  "PrepareForSubtreeChange m index =
     (if \<not> isValid index then Throw assertion_failed m
      else case internalPointer index of
        None \<Rightarrow> Throw undefined_behaviour m
      | Some node \<Rightarrow>
          and_then (on_tree (via node CountChildren) m) (\<lambda>childCount m1.
          and_then (on_tree (via node (\<lambda>t this. Return (m_pObject this) (t, this))) m1) (\<lambda>obj m2.
            if childCount = 0 then Return () m2
            else and_then (on_tree (via node (\<lambda>t this. Return (GetAliases t (m_pObject this)) (t, this))) m2)
                   (\<lambda>aliases m3. prepare_aliases obj childCount aliases m3))))"

text \<open>The loop of \<^verbatim>\<open>SubtreeChanged\<close> over the aliases.\<close>

fun announce_aliases ::
  "obj_ptr \<Rightarrow> node_ptr list \<Rightarrow> PdfObjectModel \<Rightarrow> (unit, PdfObjectModel) outcome" where
  "announce_aliases obj [] m = Return () m"
| "announce_aliases obj (it # rest) m =
     and_then (on_tree (via it (\<lambda>t this. Return (m_pObject this) (t, this))) m) (\<lambda>o1 m1.
       if obj \<noteq> o1 then Throw assertion_failed m1 else
     and_then (on_tree (via it (\<lambda>t this. Return () (t, SetPretendEmpty this False))) m1) (\<lambda>u m2.
     and_then (on_tree (\<lambda>t. GetIndexInParent t it) m2) (\<lambda>r m3.
     and_then (on_tree (via it CountChildren) m3) (\<lambda>c m4.
       if c \<noteq> 0
       then and_then (on_tree (via it CountChildren) m4) (\<lambda>c' m5.
              announce_aliases obj rest
                (emit (dataChanged (createIndex r 0 it) (createIndex r 0 it))
                  (emit endInsertRows (emit (beginInsertRows (createIndex r 0 it) 0 (c' - 1)) m5))))
       else announce_aliases obj rest
              (emit (dataChanged (createIndex r 0 it) (createIndex r 0 it)) m4)))))"

definition SubtreeChanged :: "PdfObjectModel \<Rightarrow> QModelIndex \<Rightarrow> (unit, PdfObjectModel) outcome" where
  "SubtreeChanged m index =
     (if \<not> isValid index then Throw assertion_failed m
      else case internalPointer index of
        None \<Rightarrow> Throw undefined_behaviour m
      | Some node \<Rightarrow>
          and_then (on_tree (via node (\<lambda>t this. Return (m_pObject this) (t, this))) m) (\<lambda>obj m1.
          and_then (on_tree (via node (\<lambda>t this. Return (GetAliases t (m_pObject this)) (t, this))) m1)
            (\<lambda>aliases m2. announce_aliases obj aliases m2)))"

text \<open>
  \<^verbatim>\<open>index(row, column, parent)\<close> and \<^verbatim>\<open>rowCount(parent)\<close>, through which a view reads the
  tree (and so makes nodes load their children).
\<close>

definition index :: "PdfObjectModel \<Rightarrow> int \<Rightarrow> int \<Rightarrow> QModelIndex \<Rightarrow> (QModelIndex, PdfObjectModel) outcome" where
  "index m row col parent =
     (if \<not> isValid parent then
        (if row = 0
         then on_tree (\<lambda>t. Return (createIndex row col (this_ptr (m_pRoot t))) t) m
         else Return InvalidIndex m)
      else case internalPointer parent of
        None \<Rightarrow> Throw undefined_behaviour m
      | Some parentNode \<Rightarrow>
          and_then (on_tree (via parentNode (\<lambda>t this. GetChild t this row)) m) (\<lambda>childNode m1.
            case childNode of
              None \<Rightarrow> Return InvalidIndex m1
            | Some c \<Rightarrow> Return (createIndex row col c) m1))"

definition rowCount :: "PdfObjectModel \<Rightarrow> QModelIndex \<Rightarrow> (int, PdfObjectModel) outcome" where
  "rowCount m parent =
     (if \<not> isValid parent then Return 1 m
      else case internalPointer parent of
        None \<Rightarrow> Throw undefined_behaviour m
      | Some parentNode \<Rightarrow> on_tree (via parentNode CountChildren) m)"

text \<open>
  \<^verbatim>\<open>setData(index, value, role)\<close>. The \<^verbatim>\<open>QVariant\<close> is its byte array, or \<open>None\<close> when it is
  null, invalid or not convertible. Only a \<^verbatim>\<open>PdfError\<close> is caught.
\<close>

definition setData ::
  "tokenizer \<Rightarrow> PdfObjectModel \<Rightarrow> QModelIndex \<Rightarrow> string option \<Rightarrow> (bool, PdfObjectModel) outcome" where
  "setData GetNextVariant m idx val =
     (if \<not> isValid idx then Return False m
      else if column idx \<noteq> 2 then Return False m
      else case val of
        None \<Rightarrow> Return False m
      | Some data \<Rightarrow>
          (if length data = 0 then Return False m
           else case internalPointer idx of
             None \<Rightarrow> Throw undefined_behaviour m
           | Some node \<Rightarrow>
               and_then (PrepareForSubtreeChange m idx) (\<lambda>u m1.
               and_then
                 (case on_tree (via node (\<lambda>t this. SetRawData GetNextVariant t this data)) m1 of
                    Return changed m2 \<Rightarrow> Return changed m2
                  | Throw (PdfError code) m2 \<Rightarrow> Return False m2
                  | Throw e m2 \<Rightarrow> Throw e m2)
                 (\<lambda>changed m2.
               and_then (SubtreeChanged m2 idx) (\<lambda>u m3.
                 Return changed (m3\<lparr>m_bDocChanged := (m_bDocChanged m3 \<or> changed)\<rparr>))))))"

text \<open>
  \<^verbatim>\<open>insertElement\<close> and \<^verbatim>\<open>insertKey\<close>. Both pick the root node when the index is valid and
  the index's (null) internal pointer when it is not.
\<close>

definition insertElement :: "PdfObjectModel \<Rightarrow> int \<Rightarrow> QModelIndex \<Rightarrow> (bool, PdfObjectModel) outcome" where
  "insertElement m row parent =
     and_then
       (if isValid parent then on_tree (\<lambda>t. Return (Some (this_ptr (m_pRoot t))) t) m
        else Return (internalPointer parent) m)
       (\<lambda>node m0.
          case node of
            None \<Rightarrow> Throw undefined_behaviour m0
          | Some n \<Rightarrow>
              and_then (on_tree (via n (\<lambda>t this. CanInsertElement t this row)) m0) (\<lambda>ok m1.
                if ok
                then and_then (on_tree (via n (\<lambda>t this. InsertElement t this row))
                                (emit (beginInsertRows parent row row) m1)) (\<lambda>u m2.
                       Return True (emit endInsertRows m2))
                else Return False m1))"

definition insertKey :: "PdfObjectModel \<Rightarrow> PdfName \<Rightarrow> QModelIndex \<Rightarrow> (bool, PdfObjectModel) outcome" where
  "insertKey m keyName parent =
     and_then
       (if isValid parent then on_tree (\<lambda>t. Return (Some (this_ptr (m_pRoot t))) t) m
        else Return (internalPointer parent) m)
       (\<lambda>node m0.
          case node of
            None \<Rightarrow> Throw undefined_behaviour m0
          | Some n \<Rightarrow>
              and_then (on_tree (via n (\<lambda>t this. CanInsertKey t this keyName)) m0) (\<lambda>ok m1.
                if ok
                then and_then (PrepareForSubtreeChange m1 parent) (\<lambda>u m2.
                     and_then (on_tree (via n (\<lambda>t this. InsertKey t this keyName)) m2) (\<lambda>u m3.
                     and_then (SubtreeChanged m3 parent) (\<lambda>u m4.
                       Return True m4)))
                else Return False m1))"

section \<open>Predicates and sample data used in the statements\<close>

text \<open>The four checks of \<^verbatim>\<open>setupModelData\<close>, passed with \<open>r\<close> as the reference under /Root.\<close>

definition root_entry_ok :: "PdfDocument \<Rightarrow> PdfReference \<Rightarrow> bool" where
  "root_entry_ok doc r =
     (IsDictionary (Trailer doc) \<and> HasKey (Trailer doc) ''Root''
      \<and> GetKey (Trailer doc) ''Root'' = Some (PdfReferenceValue r)
      \<and> (\<exists>kvs. Objects doc r = Some (PdfDictionary kvs)))"

text \<open>
  A tokenizer that knows four literals and rejects everything else, to run the
  operations on concrete input.
\<close>

definition table_tokenizer :: tokenizer where
  "table_tokenizer data =
     (if data = ''null'' then Inr PdfNull
      else if data = ''1'' then Inr (PdfNumber 1)
      else if data = ''[1 2]'' then Inr (PdfArray [PdfNumber 1, PdfNumber 2])
      else if data = ''/Foo'' then Inr (PdfNameValue ''Foo'')
      else Inl 16)"

text \<open>
  A document whose catalog refers twice to the number object 2 0 and once to a missing
  object 9 0, and a document without a /Root entry.
\<close>

definition two_links_doc :: PdfDocument where
  "two_links_doc =
     \<lparr>Trailer = PdfDictionary [(''Root'', PdfReferenceValue (PdfReference 1 0))],
      Objects = [PdfReference 1 0 \<mapsto> PdfDictionary [(''A'', PdfReferenceValue (PdfReference 2 0)),
                                                       (''B'', PdfReferenceValue (PdfReference 2 0)),
                                                       (''C'', PdfReferenceValue (PdfReference 9 0))],
                 PdfReference 2 0 \<mapsto> PdfNumber 1]\<rparr>"

definition no_root_doc :: PdfDocument where
  "no_root_doc = \<lparr>Trailer = PdfDictionary [(''Size'', PdfNumber 3)], Objects = Map.empty\<rparr>"

definition fresh_tree :: PdfObjectModelTree where
  "fresh_tree = new_PdfObjectModelTree two_links_doc (ObjPtr (PdfReference 1 0) []) True"

definition link_node :: "PdfName \<Rightarrow> node_ptr \<Rightarrow> PdfObjectModelNode" where
  "link_node k p =
     ModelNode p False False (ObjPtr (PdfReference 1 0) [KeySlot k]) PT_Contained (Some 0) k []"

definition loaded_node :: PdfObjectModelNode where
  "loaded_node =
     ModelNode 0 False True (ObjPtr (PdfReference 1 0) []) PT_Root None KeyNull
       [link_node ''A'' 1, link_node ''B'' 2, link_node ''C'' 3]"

text \<open>
  The alias-map entry of a node, the live nodes of a tree (every node constructed and
  not yet destroyed hangs below the root), and the invariant that operations keep:
  addresses are unique and below the allocator, and the alias map holds exactly the
  entries of the live nodes. \<open>registered\<close> says it of one subtree.
\<close>

definition entry :: "PdfObjectModelNode \<Rightarrow> obj_ptr \<times> node_ptr" where
  "entry n = (m_pObject n, this_ptr n)"

definition live_nodes :: "PdfObjectModelTree \<Rightarrow> PdfObjectModelNode list" where
  "live_nodes t = nodes_of (m_pRoot t)"

definition registered :: "PdfObjectModelTree \<Rightarrow> PdfObjectModelNode \<Rightarrow> bool" where
  "registered t n = (mset (map entry (nodes_of n)) \<subseteq># mset (m_nodeAliases t))"

definition tree_ok :: "PdfObjectModelTree \<Rightarrow> bool" where
  "tree_ok t =
     (distinct (map this_ptr (live_nodes t))
      \<and> list_all (\<lambda>n. this_ptr n < next_ptr t) (live_nodes t)
      \<and> mset (m_nodeAliases t) = mset (map entry (live_nodes t)))"

text \<open>
  The states of a tree: as constructed, and after any call of a public method of any
  node through a pointer, whether the call returns or throws.
\<close>

inductive reachable :: "PdfObjectModelTree \<Rightarrow> bool" where
  constructed:
    "reachable (new_PdfObjectModelTree doc rootObject followReferences)"
| after_CountChildren:
    "reachable t \<Longrightarrow> reachable (state_of (via p CountChildren t))"
| after_GetChild:
    "reachable t \<Longrightarrow> reachable (state_of (via p (\<lambda>t this. GetChild t this n) t))"
| after_InvalidateChildren:
    "reachable t \<Longrightarrow> reachable (state_of (via p InvalidateChildren t))"
| after_SetPretendEmpty:
    "reachable t \<Longrightarrow>
       reachable (state_of (via p (\<lambda>t this. Return () (t, SetPretendEmpty this b)) t))"
| after_SetRawData:
    "reachable t \<Longrightarrow>
       reachable (state_of (via p (\<lambda>t this. SetRawData GetNextVariant t this data) t))"
| after_CanInsertElement:
    "reachable t \<Longrightarrow> reachable (state_of (via p (\<lambda>t this. CanInsertElement t this row) t))"
| after_InsertElement:
    "reachable t \<Longrightarrow> reachable (state_of (via p (\<lambda>t this. InsertElement t this row) t))"
| after_CanInsertKey:
    "reachable t \<Longrightarrow> reachable (state_of (via p (\<lambda>t this. CanInsertKey t this keyName) t))"
| after_InsertKey:
    "reachable t \<Longrightarrow> reachable (state_of (via p (\<lambda>t this. InsertKey t this keyName) t))"

text \<open>
  What \<^verbatim>\<open>PopulateChildren\<close> adds for an object: the child entries in order, the nodes
  constructed for them from address \<open>base\<close> on, and their alias-map entries.
\<close>

definition child_specs ::
  "PdfDocument \<Rightarrow> bool \<Rightarrow> obj_ptr \<Rightarrow> PdfObject \<Rightarrow> (obj_ptr \<times> ParentageType \<times> PdfName) list" where
  "child_specs doc follow ptr obj =
     (if follow \<and> IsReference obj then
        (case GetObject doc (GetReference obj) of
           Some referee \<Rightarrow> [(referee, PT_Referenced, KeyNull)]
         | None \<Rightarrow> [])
      else if IsDictionary obj then
        map (\<lambda>kv. (inside ptr (KeySlot (fst kv)), PT_Contained, fst kv)) (GetKeys obj)
      else if IsArray obj then
        map (\<lambda>i. (inside ptr (ElementSlot i), PT_Contained, KeyNull)) [0 ..< length (GetArray obj)]
      else [])"

definition new_children ::
  "node_ptr \<Rightarrow> node_ptr \<Rightarrow> (obj_ptr \<times> ParentageType \<times> PdfName) list \<Rightarrow> PdfObjectModelNode list" where
  "new_children parent base specs =
     map (\<lambda>(i, object, pt, parentKey). ModelNode i False False object pt (Some parent) parentKey [])
       (enumerate base specs)"

definition new_entries ::
  "node_ptr \<Rightarrow> (obj_ptr \<times> ParentageType \<times> PdfName) list \<Rightarrow> (obj_ptr \<times> node_ptr) list" where
  "new_entries base specs = map (\<lambda>(i, object, pt, parentKey). (object, i)) (enumerate base specs)"

text \<open>
  How a method may change the tree and its node: the address stays, the root is not
  touched, the alias map changes by the entries of the subtree, and new addresses come
  from the allocator.
\<close>

definition node_step :: "node_state \<Rightarrow> node_state \<Rightarrow> bool" where
  "node_step s s' =
     (this_ptr (snd s') = this_ptr (snd s)
      \<and> m_pRoot (fst s') = m_pRoot (fst s)
      \<and> next_ptr (fst s) \<le> next_ptr (fst s')
      \<and> mset (m_nodeAliases (fst s')) + mset (map entry (nodes_of (snd s)))
          = mset (m_nodeAliases (fst s)) + mset (map entry (nodes_of (snd s')))
      \<and> mset (map this_ptr (nodes_of (snd s')))
          \<subseteq># mset (map this_ptr (nodes_of (snd s))) + mset [next_ptr (fst s) ..< next_ptr (fst s')])"


text \<open>The tree of \<open>two_links_doc\<close> after a view has asked five nodes for their row count.\<close>

definition browsed_tree :: PdfObjectModelTree where
  "browsed_tree =
     state_of (via 5 CountChildren (state_of (via 4 CountChildren
       (state_of (via 2 CountChildren (state_of (via 1 CountChildren
         (state_of (via 0 CountChildren fresh_tree)))))))))"

text \<open>
  What a node shows of its children: the wrapped object, the parentage and the key of
  each, in order. A node is in sync when its object pointer is valid and its child list
  is what population produces from the object as it is now (or is still unloaded and
  empty).
\<close>

definition child_view :: "PdfObjectModelNode \<Rightarrow> (obj_ptr \<times> ParentageType \<times> PdfName) list" where
  "child_view n = map (\<lambda>c. (m_pObject c, m_parentType c, m_parentKey c)) (m_children n)"

definition in_sync :: "PdfObjectModelTree \<Rightarrow> PdfObjectModelNode \<Rightarrow> bool" where
  "in_sync t n =
     (case deref (m_pDoc t) (m_pObject n) of
        None \<Rightarrow> False
      | Some obj \<Rightarrow>
          (if m_bChildrenLoaded n
           then child_view n = child_specs (m_pDoc t) (m_bFollowReferences t) (m_pObject n) obj
           else m_children n = []))"

text \<open>What a call gave back, without the state.\<close>

fun result_of :: "('a, 's) outcome \<Rightarrow> error + 'a" where
  "result_of (Return a s) = Inr a"
| "result_of (Throw e s) = Inl e"

text \<open>
  A document whose catalog holds an array and a dictionary directly, its tree after the
  root's children are loaded, and the addresses of the two contained objects.
\<close>

definition container_doc :: PdfDocument where
  "container_doc =
     \<lparr>Trailer = PdfDictionary [(''Root'', PdfReferenceValue (PdfReference 1 0))],
      Objects = [PdfReference 1 0 \<mapsto>
                   PdfDictionary [(''Info'', PdfDictionary [(''Author'', PdfNumber 7)]),
                                  (''Kids'', PdfArray [PdfNumber 10, PdfNumber 20, PdfNumber 30])]]\<rparr>"

definition container_tree :: PdfObjectModelTree where
  "container_tree =
     state_of (via 0 CountChildren
       (new_PdfObjectModelTree container_doc (ObjPtr (PdfReference 1 0) []) True))"

definition Kids :: obj_ptr where "Kids = ObjPtr (PdfReference 1 0) [KeySlot ''Kids'']"
definition Info :: obj_ptr where "Info = ObjPtr (PdfReference 1 0) [KeySlot ''Info'']"

definition kids_node :: PdfObjectModelNode where
  "kids_node = ModelNode 2 False False Kids PT_Contained (Some 0) ''Kids'' []"

text \<open>
  The table model as a view leaves it: bound to \<open>two_links_doc\<close> and asked for the row
  counts of the root, of the entries A and B and of the two nodes for object 2 0; and
  bound to \<open>container_doc\<close> and asked for the row count of the root.
\<close>

definition object_at :: "PdfObjectModel \<Rightarrow> obj_ptr \<Rightarrow> PdfObject option" where
  "object_at m ptr = (case m_pTree m of None \<Rightarrow> None | Some t \<Rightarrow> deref (m_pDoc t) ptr)"

definition aliases_in :: "PdfObjectModel \<Rightarrow> obj_ptr \<Rightarrow> node_ptr list" where
  "aliases_in m ptr = (case m_pTree m of None \<Rightarrow> [] | Some t \<Rightarrow> GetAliases t ptr)"

definition browsed_model :: PdfObjectModel where
  "browsed_model =
     state_of (rowCount (state_of (rowCount (state_of (rowCount (state_of (rowCount
       (state_of (rowCount (state_of (new_PdfObjectModel two_links_doc))
          (createIndex 0 0 0))) (createIndex 0 0 1))) (createIndex 1 0 2)))
          (createIndex 0 0 4))) (createIndex 0 0 5))"

definition container_model :: PdfObjectModel where
  "container_model =
     state_of (rowCount (state_of (new_PdfObjectModel container_doc)) (createIndex 0 0 0))"

section \<open>Properties\<close>

subsection \<open>Basic facts\<close>

lemma set_bPretendEmpty_sel [simp]:
  "this_ptr (set_bPretendEmpty n b) = this_ptr n"
  "m_bPretendEmpty (set_bPretendEmpty n b) = b"
  "m_bChildrenLoaded (set_bPretendEmpty n b) = m_bChildrenLoaded n"
  "m_pObject (set_bPretendEmpty n b) = m_pObject n"
  "m_parentType (set_bPretendEmpty n b) = m_parentType n"
  "m_pParent (set_bPretendEmpty n b) = m_pParent n"
  "m_parentKey (set_bPretendEmpty n b) = m_parentKey n"
  "m_children (set_bPretendEmpty n b) = m_children n"
  by (cases n; simp)+

lemma set_bChildrenLoaded_sel [simp]:
  "this_ptr (set_bChildrenLoaded n b) = this_ptr n"
  "m_bPretendEmpty (set_bChildrenLoaded n b) = m_bPretendEmpty n"
  "m_bChildrenLoaded (set_bChildrenLoaded n b) = b"
  "m_pObject (set_bChildrenLoaded n b) = m_pObject n"
  "m_parentType (set_bChildrenLoaded n b) = m_parentType n"
  "m_pParent (set_bChildrenLoaded n b) = m_pParent n"
  "m_parentKey (set_bChildrenLoaded n b) = m_parentKey n"
  "m_children (set_bChildrenLoaded n b) = m_children n"
  by (cases n; simp)+

lemma set_children_sel [simp]:
  "this_ptr (set_children n cs) = this_ptr n"
  "m_bPretendEmpty (set_children n cs) = m_bPretendEmpty n"
  "m_bChildrenLoaded (set_children n cs) = m_bChildrenLoaded n"
  "m_pObject (set_children n cs) = m_pObject n"
  "m_parentType (set_children n cs) = m_parentType n"
  "m_pParent (set_children n cs) = m_pParent n"
  "m_parentKey (set_children n cs) = m_parentKey n"
  "m_children (set_children n cs) = cs"
  by (cases n; simp)+

lemma HasKey_GetKey: "HasKey obj k \<longleftrightarrow> GetKey obj k \<noteq> None"
  by (simp add: HasKey_def GetKey_def map_of_eq_None_iff)

lemma IsReference_iff: "IsReference obj \<longleftrightarrow> (\<exists>r. obj = PdfReferenceValue r)"
  by (cases obj) simp_all

lemma IsDictionary_iff: "IsDictionary obj \<longleftrightarrow> (\<exists>kvs. obj = PdfDictionary kvs)"
  by (cases obj) simp_all



subsection \<open>Nodes in a tree: lookup and replacement\<close>

lemma self_in_nodes_of [simp]: "n \<in> set (nodes_of n)"
  by (cases n) simp

lemma find_node_unfold:
  "find_node n p = (if this_ptr n = p then Some n else find_among (m_children n) p)"
  by (cases n) simp

lemma find_node_Some:
  "find_node nd p = Some n \<Longrightarrow> this_ptr n = p \<and> n \<in> set (nodes_of nd)"
proof (induction nd)
  case (ModelNode q pe cl ob pt pp pk cs)
  show ?case
  proof (cases "q = p")
    case True
    with ModelNode.prems show ?thesis by auto
  next
    case False
    with ModelNode.prems have fa: "find_among cs p = Some n" by simp
    have "find_among ds p = Some n \<Longrightarrow> set ds \<subseteq> set cs \<Longrightarrow>
            this_ptr n = p \<and> (\<exists>c \<in> set ds. n \<in> set (nodes_of c))" for ds
    proof (induction ds)
      case Nil
      then show ?case by simp
    next
      case (Cons d ds)
      then show ?case
        using ModelNode.IH [of d] by (auto split: option.splits)
    qed
    from this [OF fa] show ?thesis by auto
  qed
qed

lemma find_node_None:
  "find_node nd p = None \<Longrightarrow> p \<notin> this_ptr ` set (nodes_of nd)"
proof (induction nd)
  case (ModelNode q pe cl ob pt pp pk cs)
  from ModelNode.prems have qp: "q \<noteq> p" and fa: "find_among cs p = None"
    by (auto split: if_splits)
  have "find_among ds p = None \<Longrightarrow> set ds \<subseteq> set cs \<Longrightarrow>
          (\<forall>c \<in> set ds. p \<notin> this_ptr ` set (nodes_of c))" for ds
  proof (induction ds)
    case Nil
    then show ?case by simp
  next
    case (Cons d ds)
    then show ?case
      using ModelNode.IH [of d] by (auto split: option.splits)
  qed
  from this [OF fa] qp show ?case by auto
qed

lemma write_node_absent:
  "p \<notin> this_ptr ` set (nodes_of nd) \<Longrightarrow> write_node p new nd = nd"
proof (induction nd)
  case (ModelNode q pe cl ob pt pp pk cs)
  then have "map (write_node p new) cs = cs"
    by (intro map_idI) auto
  with ModelNode.prems show ?case by auto
qed


subsection \<open>The entries of a subtree\<close>

lemma entry_simps [simp]:
  "entry (ModelNode q pe cl ob pt pp pk cs) = (ob, q)"
  "entry (set_children n cs') = entry n"
  "entry (set_bChildrenLoaded n b) = entry n"
  "entry (set_bPretendEmpty n b) = entry n"
  "snd (entry n) = this_ptr n" "fst (entry n) = m_pObject n"
  by (simp_all add: entry_def)

lemma snd_entry [simp]: "snd \<circ> entry = this_ptr"
  by (rule ext) simp

lemma subtree_mset:
  "n \<in> set (nodes_of nd) \<Longrightarrow> mset (nodes_of n) \<subseteq># mset (nodes_of nd)"
proof (induction nd)
  case (ModelNode q pe cl ob pt pp pk cs)
  show ?case
  proof (cases "n = ModelNode q pe cl ob pt pp pk cs")
    case True
    then show ?thesis by simp
  next
    case False
    with ModelNode.prems obtain c where c: "c \<in> set cs" "n \<in> set (nodes_of c)"
      by auto
    from ModelNode.IH [OF c] have "mset (nodes_of n) \<subseteq># mset (nodes_of c)" .
    also have "mset (nodes_of c) \<subseteq># mset (concat (map nodes_of cs))"
      using c(1) by (induction cs) (auto intro: subset_mset.add_increasing)
    also have "\<dots> \<subseteq># mset (nodes_of (ModelNode q pe cl ob pt pp pk cs))"
      by simp
    finally show ?thesis .
  qed
qed

lemma write_node_entries:
  "find_node nd p = Some n \<Longrightarrow> distinct (map this_ptr (nodes_of nd)) \<Longrightarrow>
     mset (map entry (nodes_of (write_node p new nd))) + mset (map entry (nodes_of n))
       = mset (map entry (nodes_of nd)) + mset (map entry (nodes_of new))"
proof (induction nd)
  case (ModelNode q pe cl ob pt pp pk cs)
  show ?case
  proof (cases "q = p")
    case True
    with ModelNode.prems show ?thesis by auto
  next
    case False
    with ModelNode.prems have fa: "find_among cs p = Some n" by simp
    from ModelNode.prems have dist: "distinct (concat (map (\<lambda>c. map this_ptr (nodes_of c)) cs))"
      by (simp add: map_concat comp_def)
    have step: "find_among ds p = Some n \<Longrightarrow> set ds \<subseteq> set cs \<Longrightarrow>
            distinct (concat (map (\<lambda>c. map this_ptr (nodes_of c)) ds)) \<Longrightarrow>
            mset (map entry (concat (map nodes_of (map (write_node p new) ds))))
              + mset (map entry (nodes_of n))
              = mset (map entry (concat (map nodes_of ds))) + mset (map entry (nodes_of new))" for ds
    proof (induction ds)
      case Nil
      then show ?case by simp
    next
      case (Cons d ds)
      show ?case
      proof (cases "find_node d p")
        case None
        then have "write_node p new d = d"
          by (intro write_node_absent find_node_None)
        moreover from None Cons.prems have "find_among ds p = Some n" by simp
        ultimately show ?thesis
          using Cons by simp
      next
        case (Some m)
        with Cons.prems have mn: "m = n" by simp
        from Some have pin: "p \<in> this_ptr ` set (nodes_of d)"
          using find_node_Some by force
        have rest: "map (write_node p new) ds = ds"
        proof (intro map_idI write_node_absent)
          fix c assume "c \<in> set ds"
          with Cons.prems(3) pin show "p \<notin> this_ptr ` set (nodes_of c)"
            by auto
        qed
        from Cons.prems have "d \<in> set cs" "distinct (map this_ptr (nodes_of d))" by auto
        from ModelNode.IH [OF this(1) Some [unfolded mn] this(2)] rest
        show ?thesis by simp
      qed
    qed
    from step [OF fa subset_refl dist] False show ?thesis by simp
  qed
qed


subsection \<open>What the node methods do to the tree\<close>

lemma node_step_refl [simp]: "node_step s s"
  by (simp add: node_step_def)

lemma mset_sub_insertD: "add_mset x A \<subseteq># B \<Longrightarrow> A \<subseteq># B"
  by (metis multi_psub_of_add_self subset_mset.dual_order.order_iff_strict
    subset_mset.le_iff_sup subset_mset.less_supI1)

lemma mset_sub_left: "C + F \<subseteq># (A::'a multiset) \<Longrightarrow> C \<subseteq># A"
  using mset_subset_eq_add_left subset_mset.dual_order.trans by blast

lemma distinct_sub:
  assumes "mset xs \<subseteq># mset ys" and "distinct ys"
  shows "distinct xs"
proof -
  have "count (mset xs) a \<le> 1" for a
  proof -
    from assms(1) have "count (mset xs) a \<le> count (mset ys) a"
      by (rule mset_subset_eq_count)
    also from assms(2) have "\<dots> \<le> 1"
      by (simp add: distinct_count_atmost_1)
    finally show ?thesis .
  qed
  then have "count (mset xs) a = (if a \<in> set xs then 1 else 0)" for a
    using count_mset_0_iff [of xs a] le_Suc_eq by (cases "a \<in> set xs") (fastforce, simp)
  then show ?thesis
    by (simp add: distinct_count_atmost_1)
qed



lemma nodes_of_set_children [simp]:
  "nodes_of (set_children n cs) = set_children n cs # concat (map nodes_of cs)"
  by (cases n) simp

lemma nodes_of_set_bChildrenLoaded [simp]:
  "nodes_of (set_bChildrenLoaded n b) = set_bChildrenLoaded n b # concat (map nodes_of (m_children n))"
  by (cases n) simp

lemma nodes_of_set_bPretendEmpty [simp]:
  "nodes_of (set_bPretendEmpty n b) = set_bPretendEmpty n b # concat (map nodes_of (m_children n))"
  by (cases n) simp

lemma setter_twice [simp]:
  "set_children (set_children n cs) cs' = set_children n cs'"
  "set_bChildrenLoaded (set_bChildrenLoaded n b) b' = set_bChildrenLoaded n b'"
  "set_bPretendEmpty (set_bPretendEmpty n b) b' = set_bPretendEmpty n b'"
  by (cases n; simp)+

lemma setter_same [simp]:
  "set_children n (m_children n) = n"
  "set_bChildrenLoaded n (m_bChildrenLoaded n) = n"
  "set_bPretendEmpty n (m_bPretendEmpty n) = n"
  by (cases n; simp)+

lemma AddNode_result:
  "AddNode t n object pt k =
     Return () (t\<lparr>m_nodeAliases := m_nodeAliases t @ [(object, next_ptr t)],
                  next_ptr := Suc (next_ptr t)\<rparr>,
                set_children n (m_children n
                  @ [ModelNode (next_ptr t) False False object pt (Some (this_ptr n)) k []]))"
  by (simp add: AddNode_def new_PdfObjectModelNode_def NodeCreated_def Let_def)

lemma AddNodes_result:
  "AddNodes specs t n =
     Return () (t\<lparr>m_nodeAliases := m_nodeAliases t @ new_entries (next_ptr t) specs,
                  next_ptr := next_ptr t + length specs\<rparr>,
                set_children n (m_children n @ new_children (this_ptr n) (next_ptr t) specs))"
proof (induction specs arbitrary: t n)
  case Nil
  then show ?case
    by (cases n) (simp add: new_entries_def new_children_def)
next
  case (Cons spec specs)
  obtain object pt k where spec: "spec = (object, pt, k)"
    by (cases spec) auto
  show ?case
    by (simp add: spec AddNode_result Cons.IH new_entries_def new_children_def)
qed

lemma PopulateChildren_result:
  assumes "\<not> m_bChildrenLoaded n" and "deref (m_pDoc t) (m_pObject n) = Some obj"
  shows "PopulateChildren t n =
     Return () (t\<lparr>m_nodeAliases := m_nodeAliases t
                      @ new_entries (next_ptr t)
                          (child_specs (m_pDoc t) (m_bFollowReferences t) (m_pObject n) obj),
                  next_ptr := next_ptr t
                      + length (child_specs (m_pDoc t) (m_bFollowReferences t) (m_pObject n) obj)\<rparr>,
                set_bChildrenLoaded
                  (set_children n (m_children n
                     @ new_children (this_ptr n) (next_ptr t)
                         (child_specs (m_pDoc t) (m_bFollowReferences t) (m_pObject n) obj))) True)"
proof -
  have one: "AddNode t n object pt k = AddNodes [(object, pt, k)] t n" for object pt k
    by (simp add: AddNode_result)
  have none: "Return () (t, n) = AddNodes [] t n"
    by simp
  show ?thesis
    using assms
    unfolding PopulateChildren_def one none
    by (simp add: AddNodes_result child_specs_def split: option.splits del: AddNodes.simps)
qed


lemma new_children_facts [simp]:
  "concat (map nodes_of (new_children p b specs)) = new_children p b specs"
  "map entry (new_children p b specs) = new_entries b specs"
  "map this_ptr (new_children p b specs) = [b ..< b + length specs]"
  "length (new_children p b specs) = length specs"
proof -
  show "concat (map nodes_of (new_children p b specs)) = new_children p b specs"
    by (induction specs arbitrary: b) (auto simp: new_children_def)
  show "map entry (new_children p b specs) = new_entries b specs"
    by (simp add: new_children_def new_entries_def split_def)
  have "map this_ptr (new_children p b specs) = map fst (enumerate b specs)"
    by (simp add: new_children_def split_def comp_def)
  then show "map this_ptr (new_children p b specs) = [b ..< b + length specs]"
    by (simp add: map_fst_enumerate)
  show "length (new_children p b specs) = length specs"
    by (simp add: new_children_def)
qed

lemma map_snd_new_entries [simp]: "map snd (new_entries b specs) = [b ..< b + length specs]"
proof -
  have "map snd (new_entries b specs) = map fst (enumerate b specs)"
    by (simp add: new_entries_def split_def comp_def)
  then show ?thesis by (simp add: map_fst_enumerate)
qed

lemma grow_step:
  "node_step (t, n)
     (t\<lparr>m_nodeAliases := m_nodeAliases t @ new_entries (next_ptr t) specs,
        next_ptr := next_ptr t + length specs\<rparr>,
      set_bChildrenLoaded
        (set_children n (m_children n @ new_children (this_ptr n) (next_ptr t) specs)) True)"
  by (cases n) (simp add: node_step_def)

lemma delete_result:
  "mset (map entry (nodes_of nd)) \<subseteq># mset (m_nodeAliases t) \<Longrightarrow>
     \<exists>al. delete_PdfObjectModelNode nd t = Return () (t\<lparr>m_nodeAliases := al\<rparr>)
        \<and> mset al + mset (map entry (nodes_of nd)) = mset (m_nodeAliases t)"
  "mset (map entry (concat (map nodes_of cs))) \<subseteq># mset (m_nodeAliases t) \<Longrightarrow>
     \<exists>al. delete_each cs t = Return () (t\<lparr>m_nodeAliases := al\<rparr>)
        \<and> mset al + mset (map entry (concat (map nodes_of cs))) = mset (m_nodeAliases t)"
proof (induction nd t and cs t rule: delete_PdfObjectModelNode_delete_each.induct)
  case (1 p pe cl ob pt pp pk cs t)
  let ?F = "mset (map entry (concat (map nodes_of cs)))"
  from "1.prems" have sub: "add_mset (ob, p) ?F \<subseteq># mset (m_nodeAliases t)"
    by simp
  then have "?F \<subseteq># mset (m_nodeAliases t)"
    by (rule mset_sub_insertD)
  from "1.IH" [OF this] obtain al where
    al: "delete_each cs t = Return () (t\<lparr>m_nodeAliases := al\<rparr>)" "mset al + ?F = mset (m_nodeAliases t)"
    by blast
  from sub al(2) have "add_mset (ob, p) ?F \<subseteq># mset al + ?F"
    by simp
  then have mem: "(ob, p) \<in> set al"
    by simp
  then have "mset (remove1 (ob, p) al) + add_mset (ob, p) ?F = mset al + ?F"
    by simp
  with al mem show ?case
    by (auto simp: NodeDeleted_def)
next
  case (2 t)
  show ?case
    by (rule exI [of _ "m_nodeAliases t"]) simp
next
  case (3 c cs t)
  let ?C = "mset (map entry (nodes_of c))"
  let ?F = "mset (map entry (concat (map nodes_of cs)))"
  from "3.prems" have sub: "?C + ?F \<subseteq># mset (m_nodeAliases t)"
    by simp
  then have "?C \<subseteq># mset (m_nodeAliases t)"
    by (rule mset_sub_left)
  from "3.IH"(1) [OF this] obtain al where
    al: "delete_PdfObjectModelNode c t = Return () (t\<lparr>m_nodeAliases := al\<rparr>)"
      "mset al + ?C = mset (m_nodeAliases t)"
    by blast
  from sub al(2) have "?F + ?C \<subseteq># mset al + ?C"
    by (simp add: ac_simps)
  then have "?F \<subseteq># mset al"
    by simp
  then have "?F \<subseteq># mset (m_nodeAliases (t\<lparr>m_nodeAliases := al\<rparr>))"
    by simp
  from "3.IH"(2) [OF al(1) this] obtain al' where
    al': "delete_each cs (t\<lparr>m_nodeAliases := al\<rparr>) = Return () (t\<lparr>m_nodeAliases := al'\<rparr>)"
      "mset al' + ?F = mset al"
    by auto
  have "mset al' + (?C + ?F) = mset (m_nodeAliases t)"
    by (simp add: al'(2) [symmetric] al(2) [symmetric] ac_simps)
  with al(1) al'(1) show ?case
    by (intro exI [of _ al']) simp
qed

lemma InvalidateChildren_result:
  assumes "registered t n"
  shows "\<exists>al. InvalidateChildren t n
            = Return () (t\<lparr>m_nodeAliases := al\<rparr>, set_bChildrenLoaded (set_children n []) False)
          \<and> mset al + mset (map entry (concat (map nodes_of (m_children n)))) = mset (m_nodeAliases t)"
proof -
  from assms have "mset (map entry (concat (map nodes_of (m_children n)))) \<subseteq># mset (m_nodeAliases t)"
    unfolding registered_def
    by (cases n) (auto dest: mset_sub_insertD)
  from delete_result(2) [OF this] show ?thesis
    by (auto simp: InvalidateChildren_def)
qed


lemma node_step_doc:
  "node_step s (t', n') \<Longrightarrow> node_step s (t'\<lparr>m_pDoc := d\<rparr>, n')"
  by (simp add: node_step_def)

lemma EnsureChildrenLoaded_step: "node_step (t, n) (state_of (EnsureChildrenLoaded t n))"
proof (cases "m_bChildrenLoaded n \<or> deref (m_pDoc t) (m_pObject n) = None")
  case True
  then show ?thesis
    by (auto simp: EnsureChildrenLoaded_def PopulateChildren_def)
next
  case False
  then obtain obj where "\<not> m_bChildrenLoaded n" "deref (m_pDoc t) (m_pObject n) = Some obj"
    by auto
  then show ?thesis
    by (simp add: EnsureChildrenLoaded_def PopulateChildren_result grow_step)
qed

lemma CountChildren_state:
  "state_of (CountChildren t n)
     = (if m_bPretendEmpty n then (t, n) else state_of (EnsureChildrenLoaded t n))"
  by (simp add: CountChildren_def IsPretendEmpty_def split: outcome.splits prod.splits)

lemma GetChild_state:
  "state_of (GetChild t n k)
     = (if m_bPretendEmpty n then (t, n) else state_of (EnsureChildrenLoaded t n))"
  by (simp add: GetChild_def IsPretendEmpty_def split: outcome.splits prod.splits)

lemma CountChildren_step: "node_step (t, n) (state_of (CountChildren t n))"
  by (simp add: CountChildren_state EnsureChildrenLoaded_step)

lemma GetChild_step: "node_step (t, n) (state_of (GetChild t n k))"
  by (simp add: GetChild_state EnsureChildrenLoaded_step)

lemma InvalidateChildren_step:
  assumes "registered t n"
  shows "node_step (t, n) (state_of (InvalidateChildren t n))"
proof -
  from InvalidateChildren_result [OF assms] obtain al where
    r: "InvalidateChildren t n
          = Return () (t\<lparr>m_nodeAliases := al\<rparr>, set_bChildrenLoaded (set_children n []) False)"
    and al: "mset al + mset (map entry (concat (map nodes_of (m_children n)))) = mset (m_nodeAliases t)"
    by blast
  show ?thesis
    unfolding r
    by (cases n) (simp add: node_step_def al [symmetric])
qed

lemma SetPretendEmpty_step: "node_step (t, n) (t, SetPretendEmpty n b)"
  by (cases n) (simp add: node_step_def SetPretendEmpty_def)

lemma SetRawData_step:
  assumes "registered t n"
  shows "node_step (t, n) (state_of (SetRawData tok t n data))"
proof (cases "tok data")
  case (Inl code)
  then show ?thesis by (simp add: SetRawData_def)
next
  case (Inr variant)
  from InvalidateChildren_result [OF assms] obtain t1 n1 where
    r: "InvalidateChildren t n = Return () (t1, n1)"
    by blast
  with InvalidateChildren_step [OF assms] have "node_step (t, n) (t1, n1)"
    by simp
  then show ?thesis
    by (auto simp: SetRawData_def Inr r node_step_doc split: option.splits)
qed

lemma CanInsertElement_state:
  "state_of (CanInsertElement t n row)
     = (if row > 0 then state_of (CountChildren t n) else (t, n))"
  by (simp add: CanInsertElement_def split: outcome.splits prod.splits option.splits)

lemma CanInsertElement_step: "node_step (t, n) (state_of (CanInsertElement t n row))"
  by (simp add: CanInsertElement_state CountChildren_step)

lemma InsertElement_step: "node_step (t, n) (state_of (InsertElement t n row))"
proof -
  obtain t1 n1 where s: "state_of (CanInsertElement t n row) = (t1, n1)"
    by (cases "state_of (CanInsertElement t n row)") auto
  with CanInsertElement_step [of t n row] have "node_step (t, n) (t1, n1)"
    by simp
  with s show ?thesis
    by (cases "CanInsertElement t n row")
       (auto simp: InsertElement_def node_step_doc split: option.splits)
qed

lemma CanInsertKey_state: "state_of (CanInsertKey t n k) = (t, n)"
  by (simp add: CanInsertKey_def split: option.splits)

lemma CanInsertKey_step: "node_step (t, n) (state_of (CanInsertKey t n k))"
  by (simp add: CanInsertKey_state)

lemma InsertKey_step: "node_step (t, n) (state_of (InsertKey t n k))"
proof -
  have "node_step (t, n) (t, n)" by simp
  then show ?thesis
    using CanInsertKey_state [of t n k]
    by (cases "CanInsertKey t n k")
       (auto simp: InsertKey_def node_step_doc split: option.splits)
qed


subsection \<open>The invariant of the tree\<close>

lemma via_state:
  "state_of (via p f t)
     = (case find_node (m_pRoot t) p of
          None \<Rightarrow> t
        | Some n \<Rightarrow> (fst (state_of (f t n)))
                      \<lparr>m_pRoot := write_node p (snd (state_of (f t n))) (m_pRoot (fst (state_of (f t n))))\<rparr>)"
  by (simp add: via_def split: option.splits outcome.splits prod.splits)

lemma tree_ok_write:
  assumes ok: "tree_ok t"
    and found: "find_node (m_pRoot t) p = Some n"
    and step: "node_step (t, n) (t', n')"
  shows "tree_ok (t'\<lparr>m_pRoot := write_node p n' (m_pRoot t')\<rparr>)"
proof -
  let ?live = "nodes_of (m_pRoot t)"
  let ?live' = "nodes_of (write_node p n' (m_pRoot t))"
  let ?F = "[next_ptr t ..< next_ptr t']"
  from ok have dist: "distinct (map this_ptr ?live)"
    and bound: "\<forall>x \<in> set ?live. this_ptr x < next_ptr t"
    and al: "mset (m_nodeAliases t) = mset (map entry ?live)"
    by (simp_all add: tree_ok_def live_nodes_def list_all_iff)
  from step have root: "m_pRoot t' = m_pRoot t" and le: "next_ptr t \<le> next_ptr t'"
    and al': "mset (m_nodeAliases t') + mset (map entry (nodes_of n))
                = mset (m_nodeAliases t) + mset (map entry (nodes_of n'))"
    and ids: "mset (map this_ptr (nodes_of n'))
                \<subseteq># mset (map this_ptr (nodes_of n)) + mset ?F"
    by (simp_all add: node_step_def)
  have E: "mset (map entry ?live') + mset (map entry (nodes_of n))
             = mset (map entry ?live) + mset (map entry (nodes_of n'))"
    by (rule write_node_entries [OF found dist])
  note al'
  also have "mset (m_nodeAliases t) + mset (map entry (nodes_of n'))
          = mset (map entry ?live) + mset (map entry (nodes_of n'))"
    by (simp only: al)
  also note E [symmetric]
  finally have A: "mset (m_nodeAliases t') = mset (map entry ?live')"
    by (rule add_right_imp_eq)
  from E have "image_mset snd (mset (map entry ?live') + mset (map entry (nodes_of n)))
             = image_mset snd (mset (map entry ?live) + mset (map entry (nodes_of n')))"
    by simp
  then have I: "mset (map this_ptr ?live') + mset (map this_ptr (nodes_of n))
             = mset (map this_ptr ?live) + mset (map this_ptr (nodes_of n'))"
    by (simp add: image_mset.compositionality comp_def)
  from ids have "mset (map this_ptr ?live) + mset (map this_ptr (nodes_of n'))
          \<subseteq># mset (map this_ptr ?live) + (mset (map this_ptr (nodes_of n)) + mset ?F)"
    by simp
  with I have "mset (map this_ptr ?live') + mset (map this_ptr (nodes_of n))
          \<subseteq># (mset (map this_ptr ?live) + mset ?F) + mset (map this_ptr (nodes_of n))"
    by (simp add: ac_simps)
  then have sub: "mset (map this_ptr ?live') \<subseteq># mset (map this_ptr ?live @ ?F)"
    by simp
  from dist bound have "distinct (map this_ptr ?live @ ?F)"
    by auto
  with sub have D: "distinct (map this_ptr ?live')"
    by (rule distinct_sub)
  from sub have "set (map this_ptr ?live') \<subseteq> set (map this_ptr ?live @ ?F)"
    by (metis set_mset_mono set_mset_mset)
  with bound le have B: "\<forall>x \<in> set ?live'. this_ptr x < next_ptr t'"
    by fastforce
  from A D B root show ?thesis
    by (simp add: tree_ok_def live_nodes_def list_all_iff)
qed

lemma registered_of_tree_ok:
  assumes "tree_ok t" and "find_node (m_pRoot t) p = Some n"
  shows "registered t n"
proof -
  from assms(2) have "n \<in> set (nodes_of (m_pRoot t))"
    by (simp add: find_node_Some)
  then have "mset (nodes_of n) \<subseteq># mset (nodes_of (m_pRoot t))"
    by (rule subtree_mset)
  then have "image_mset entry (mset (nodes_of n)) \<subseteq># image_mset entry (mset (nodes_of (m_pRoot t)))"
    by (rule image_mset_subseteq_mono)
  with assms(1) show ?thesis
    by (simp add: registered_def tree_ok_def live_nodes_def)
qed

lemma tree_ok_via:
  assumes "tree_ok t"
    and "\<And>n. registered t n \<Longrightarrow> node_step (t, n) (state_of (f t n))"
  shows "tree_ok (state_of (via p f t))"
proof (cases "find_node (m_pRoot t) p")
  case None
  with assms(1) show ?thesis by (simp add: via_state)
next
  case (Some n)
  from assms(2) [OF registered_of_tree_ok [OF assms(1) Some]]
  have "node_step (t, n) (fst (state_of (f t n)), snd (state_of (f t n)))"
    by simp
  from tree_ok_write [OF assms(1) Some this] Some show ?thesis
    by (simp add: via_state)
qed

lemma tree_ok_new: "tree_ok (new_PdfObjectModelTree doc rootObject followReferences)"
  by (simp add: tree_ok_def live_nodes_def new_PdfObjectModelTree_def NodeCreated_def)

lemma reachable_tree_ok: "reachable t \<Longrightarrow> tree_ok t"
proof (induction rule: reachable.induct)
  case (constructed doc rootObject followReferences)
  show ?case by (rule tree_ok_new)
next
  case (after_SetPretendEmpty t p b)
  then show ?case
    by (intro tree_ok_via) (simp_all add: SetPretendEmpty_step)
qed (intro tree_ok_via CountChildren_step GetChild_step InvalidateChildren_step SetRawData_step
      CanInsertElement_step InsertElement_step CanInsertKey_step InsertKey_step; assumption)+


subsection \<open>The alias index\<close>



subsection \<open>The pretend-empty flag\<close>

text \<open>
  C8. While the pretend-empty flag is set, \<^verbatim>\<open>CountChildren()\<close> returns 0 and
  \<^verbatim>\<open>GetChild(n)\<close> returns the null pointer for every \<open>n\<close>, and neither changes the tree
  or the node: nothing is populated and the cached child list stays. Setting the flag
  keeps the child list and the loaded flag; setting and clearing it on a node that was
  not pretending gives the node back unchanged, and on a node whose children are loaded
  \<^verbatim>\<open>CountChildren()\<close> and \<^verbatim>\<open>GetChild(n)\<close> then report the same children in the same order
  as the cached list held before.
\<close>

theorem pretend_empty_hides_children:
  "(m_bPretendEmpty this \<longrightarrow>
      CountChildren t this = Return 0 (t, this) \<and> (\<forall>n. GetChild t this n = Return None (t, this)))
   \<and> IsPretendEmpty (SetPretendEmpty this True)
   \<and> m_children (SetPretendEmpty this True) = m_children this
   \<and> m_bChildrenLoaded (SetPretendEmpty this True) = m_bChildrenLoaded this
   \<and> (\<not> m_bPretendEmpty this \<longrightarrow> SetPretendEmpty (SetPretendEmpty this True) False = this)
   \<and> (m_bChildrenLoaded this \<longrightarrow>
        CountChildren t (SetPretendEmpty (SetPretendEmpty this True) False)
          = Return (int (length (m_children this))) (t, SetPretendEmpty (SetPretendEmpty this True) False)
        \<and> (\<forall>n. GetChild t (SetPretendEmpty (SetPretendEmpty this True) False) n
          = Return (if 0 \<le> n \<and> nat n < length (m_children this)
                    then Some (this_ptr (m_children this ! nat n)) else None)
               (t, SetPretendEmpty (SetPretendEmpty this True) False)))"
  by (cases this)
     (simp add: CountChildren_def GetChild_def IsPretendEmpty_def SetPretendEmpty_def
        EnsureChildrenLoaded_def)

theorem pretend_empty_hides_children_witness:
  "m_bPretendEmpty (SetPretendEmpty loaded_node True)
   \<and> CountChildren fresh_tree (SetPretendEmpty loaded_node True)
        = Return 0 (fresh_tree, SetPretendEmpty loaded_node True)
   \<and> GetChild fresh_tree (SetPretendEmpty loaded_node True) 1
        = Return None (fresh_tree, SetPretendEmpty loaded_node True)
   \<and> \<not> m_bPretendEmpty loaded_node
   \<and> SetPretendEmpty (SetPretendEmpty loaded_node True) False = loaded_node
   \<and> m_bChildrenLoaded loaded_node
   \<and> CountChildren fresh_tree (SetPretendEmpty (SetPretendEmpty loaded_node True) False)
        = Return 3 (fresh_tree, loaded_node)
   \<and> GetChild fresh_tree (SetPretendEmpty (SetPretendEmpty loaded_node True) False) 1
        = Return (Some 2) (fresh_tree, loaded_node)"
  using pretend_empty_hides_children [of "SetPretendEmpty loaded_node True" fresh_tree]
    pretend_empty_hides_children [of loaded_node fresh_tree]
  by (simp add: loaded_node_def link_node_def SetPretendEmpty_def)

subsection \<open>A parse error in SetRawData\<close>

text \<open>
  C2. When the tokenizer rejects the bytes, \<^verbatim>\<open>SetRawData\<close> throws the tokenizer's
  \<^verbatim>\<open>PdfError\<close> and the tree and the node are exactly as before the call: the document (so
  the wrapped object's type and contents), the node's child list and loaded flag, and
  the alias index. The invalidation and the overwrite come only after the parse.
\<close>

theorem SetRawData_parse_error:
  "GetNextVariant data = Inl code \<Longrightarrow>
     SetRawData GetNextVariant t this data = Throw (PdfError code) (t, this)"
  by (simp add: SetRawData_def)

theorem SetRawData_parse_error_witness:
  "table_tokenizer ''<<'' = Inl 16 \<and>
   SetRawData table_tokenizer fresh_tree loaded_node ''<<''
     = Throw (PdfError 16) (fresh_tree, loaded_node)"
  using SetRawData_parse_error [of table_tokenizer "''<<''" 16 fresh_tree loaded_node]
  by (simp add: table_tokenizer_def)

subsection \<open>Binding the model to a document\<close>

text \<open>
  C10. Constructing the model from a document throws \<^verbatim>\<open>invalid_argument\<close> and leaves the
  tree pointer null when the trailer is not a dictionary, or has no /Root key, or its
  /Root entry is not a reference, or that reference does not resolve to a dictionary.
  For a document that passes the four checks the constructor returns with a tree whose
  root node wraps the resolved catalog, with reference following turned on.
\<close>

theorem setupModelData_checks:
  "((\<not> IsDictionary (Trailer doc)
      \<or> \<not> HasKey (Trailer doc) ''Root''
      \<or> (\<forall>r. GetKey (Trailer doc) ''Root'' \<noteq> Some (PdfReferenceValue r))
      \<or> (\<exists>r. GetKey (Trailer doc) ''Root'' = Some (PdfReferenceValue r)
             \<and> (\<forall>kvs. Objects doc r \<noteq> Some (PdfDictionary kvs)))) \<longrightarrow>
      new_PdfObjectModel doc
        = Throw invalid_argument \<lparr>m_bDocChanged = False, m_pTree = None, emitted = []\<rparr>)
   \<and> (\<forall>r. root_entry_ok doc r \<longrightarrow>
      new_PdfObjectModel doc
        = Return () \<lparr>m_bDocChanged = False,
                      m_pTree = Some (new_PdfObjectModelTree doc (ObjPtr r []) True),
                      emitted = []\<rparr>
      \<and> m_pRoot (new_PdfObjectModelTree doc (ObjPtr r []) True)
          = ModelNode 0 False False (ObjPtr r []) PT_Root None KeyNull []
      \<and> deref doc (ObjPtr r []) = Objects doc r
      \<and> m_bFollowReferences (new_PdfObjectModelTree doc (ObjPtr r []) True)
      \<and> m_pDoc (new_PdfObjectModelTree doc (ObjPtr r []) True) = doc)"
proof (intro conjI allI impI)
  assume "\<not> IsDictionary (Trailer doc)
      \<or> \<not> HasKey (Trailer doc) ''Root''
      \<or> (\<forall>r. GetKey (Trailer doc) ''Root'' \<noteq> Some (PdfReferenceValue r))
      \<or> (\<exists>r. GetKey (Trailer doc) ''Root'' = Some (PdfReferenceValue r)
             \<and> (\<forall>kvs. Objects doc r \<noteq> Some (PdfDictionary kvs)))"
  then show "new_PdfObjectModel doc
        = Throw invalid_argument \<lparr>m_bDocChanged = False, m_pTree = None, emitted = []\<rparr>"
    by (auto simp: new_PdfObjectModel_def setupModelData_def Let_def
          GetObject_def IsReference_iff IsDictionary_iff HasKey_GetKey
        split: option.splits)
next
  fix r assume "root_entry_ok doc r"
  then show "new_PdfObjectModel doc
        = Return () \<lparr>m_bDocChanged = False,
                      m_pTree = Some (new_PdfObjectModelTree doc (ObjPtr r []) True),
                      emitted = []\<rparr>"
    by (auto simp: new_PdfObjectModel_def setupModelData_def root_entry_ok_def Let_def
          GetObject_def)
next
  fix r show "deref doc (ObjPtr r []) = Objects doc r"
    by (simp split: option.splits)
qed (simp_all add: new_PdfObjectModelTree_def NodeCreated_def)

theorem setupModelData_checks_witness:
  "\<not> HasKey (Trailer no_root_doc) ''Root''
   \<and> new_PdfObjectModel no_root_doc
        = Throw invalid_argument \<lparr>m_bDocChanged = False, m_pTree = None, emitted = []\<rparr>
   \<and> root_entry_ok two_links_doc (PdfReference 1 0)
   \<and> new_PdfObjectModel two_links_doc
        = Return () \<lparr>m_bDocChanged = False, m_pTree = Some fresh_tree, emitted = []\<rparr>"
  using setupModelData_checks [of no_root_doc] setupModelData_checks [of two_links_doc]
  by (simp add: root_entry_ok_def no_root_doc_def two_links_doc_def HasKey_def GetKey_def
        fresh_tree_def)

subsection \<open>Populating the children of a reference\<close>



subsection \<open>Invalidating and repopulating\<close>

lemma view_new_children [simp]:
  "map (\<lambda>c. (m_pObject c, m_parentType c, m_parentKey c)) (new_children p b specs) = specs"
  unfolding new_children_def
  by (induction specs arbitrary: b) auto

lemma CountChildren_in_sync:
  assumes "in_sync t n" and "\<not> m_bPretendEmpty n"
  shows "\<exists>t1 n1. CountChildren t n = Return (int (length (child_view n1))) (t1, n1)
           \<and> node_step (t, n) (t1, n1)
           \<and> m_pDoc t1 = m_pDoc t \<and> m_bFollowReferences t1 = m_bFollowReferences t
           \<and> m_pObject n1 = m_pObject n \<and> m_bChildrenLoaded n1 \<and> \<not> m_bPretendEmpty n1
           \<and> (\<forall>obj. deref (m_pDoc t) (m_pObject n) = Some obj \<longrightarrow>
                 child_view n1 = child_specs (m_pDoc t) (m_bFollowReferences t) (m_pObject n) obj)"
proof -
  from assms(1) obtain obj where obj: "deref (m_pDoc t) (m_pObject n) = Some obj"
    by (auto simp: in_sync_def split: option.splits)
  show ?thesis
  proof (cases "m_bChildrenLoaded n")
    case True
    with assms obj show ?thesis
      by (simp add: CountChildren_def IsPretendEmpty_def EnsureChildrenLoaded_def in_sync_def
            child_view_def)
  next
    case False
    with assms(1) obj have "m_children n = []"
      by (simp add: in_sync_def)
    with False assms(2) obj show ?thesis
      using grow_step [of t n "child_specs (m_pDoc t) (m_bFollowReferences t) (m_pObject n) obj"]
      by (simp add: CountChildren_def IsPretendEmpty_def EnsureChildrenLoaded_def
            PopulateChildren_result child_view_def)
  qed
qed



subsection \<open>Overwriting an object\<close>

lemma map_of_replace:
  "map_of kvs k = Some c \<Longrightarrow>
     map_of (map (\<lambda>kv. if fst kv = k then (k, c') else kv) kvs) k = Some c'"
  by (induction kvs) (auto split: if_splits)

lemma put_at_walk:
  "walk obj path = Some old \<Longrightarrow>
     \<exists>obj'. put_at obj path v = Some obj' \<and> walk obj' path = Some v"
proof (induction obj path arbitrary: old rule: walk.induct)
  case (2 kvs k path)
  then obtain c where c: "map_of kvs k = Some c" "walk c path = Some old"
    by (auto split: option.splits)
  from "2.IH" [OF c] obtain c' where "put_at c path v = Some c'" "walk c' path = Some v"
    by blast
  with c show ?case
    by (simp add: map_of_replace)
next
  case (3 xs i path)
  then have i: "i < length xs" "walk (xs ! i) path = Some old"
    by (auto split: if_splits)
  from "3.IH" [OF i] obtain c' where "put_at (xs ! i) path v = Some c'" "walk c' path = Some v"
    by blast
  with i show ?case
    by simp
qed simp_all

lemma assign_deref:
  assumes "deref doc ptr = Some old"
  shows "\<exists>doc'. assign doc ptr v = Some doc' \<and> deref doc' ptr = Some v"
proof (cases ptr)
  case (ObjPtr r path)
  with assms obtain obj where obj: "Objects doc r = Some obj" "walk obj path = Some old"
    by (auto split: option.splits)
  from put_at_walk [OF obj(2), of v] obtain obj' where
    "put_at obj path v = Some obj'" "walk obj' path = Some v"
    by blast
  with obj ObjPtr show ?thesis
    by simp
qed

text \<open>
  C7, as amended. When the bytes parse, \<^verbatim>\<open>SetRawData\<close> (on a node whose subtree is
  registered and whose object pointer is valid) returns true, whatever the previous
  value was; the object then holds the parsed value and the node has no loaded
  children.
\<close>

theorem SetRawData_returns_true:
  assumes "GetNextVariant data = Inr variant"
    and "registered t n"
    and "deref (m_pDoc t) (m_pObject n) = Some old"
  shows "\<exists>t' n'. SetRawData GetNextVariant t n data = Return True (t', n')
           \<and> deref (m_pDoc t') (m_pObject n') = Some variant
           \<and> m_pObject n' = m_pObject n
           \<and> m_children n' = [] \<and> \<not> m_bChildrenLoaded n'"
proof -
  from InvalidateChildren_result [OF assms(2)] obtain al where
    inv: "InvalidateChildren t n
            = Return () (t\<lparr>m_nodeAliases := al\<rparr>, set_bChildrenLoaded (set_children n []) False)"
    by blast
  from assign_deref [OF assms(3), of variant] obtain doc' where
    "assign (m_pDoc t) (m_pObject n) variant = Some doc'" "deref doc' (m_pObject n) = Some variant"
    by blast
  with assms(1) inv show ?thesis
    by (simp add: SetRawData_def)
qed

theorem SetRawData_returns_true_witness:
  "table_tokenizer ''[1 2]'' = Inr (PdfArray [PdfNumber 1, PdfNumber 2])
   \<and> registered browsed_tree (m_pRoot browsed_tree)
   \<and> (\<exists>old. deref (m_pDoc browsed_tree) (m_pObject (m_pRoot browsed_tree)) = Some old)
   \<and> (\<exists>t' n'. SetRawData table_tokenizer browsed_tree (m_pRoot browsed_tree) ''[1 2]''
                  = Return True (t', n')
         \<and> deref (m_pDoc t') (m_pObject n') = Some (PdfArray [PdfNumber 1, PdfNumber 2])
         \<and> m_children n' = [])"
proof -
  have tok: "table_tokenizer ''[1 2]'' = Inr (PdfArray [PdfNumber 1, PdfNumber 2])"
    by code_simp
  have r: "reachable browsed_tree"
    unfolding browsed_tree_def fresh_tree_def
    by (intro reachable.after_CountChildren reachable.constructed)
  have "find_node (m_pRoot browsed_tree) (this_ptr (m_pRoot browsed_tree)) = Some (m_pRoot browsed_tree)"
    by (simp add: find_node_unfold)
  from registered_of_tree_ok [OF reachable_tree_ok [OF r] this]
  have reg: "registered browsed_tree (m_pRoot browsed_tree)" .
  have old: "deref (m_pDoc browsed_tree) (m_pObject (m_pRoot browsed_tree))
      = Some (PdfDictionary [(''A'', PdfReferenceValue (PdfReference 2 0)),
                             (''B'', PdfReferenceValue (PdfReference 2 0)),
                             (''C'', PdfReferenceValue (PdfReference 9 0))])"
    by code_simp
  from SetRawData_returns_true [of table_tokenizer "''[1 2]''" "PdfArray [PdfNumber 1, PdfNumber 2]"
      browsed_tree "m_pRoot browsed_tree", OF tok reg old] tok reg old
  show ?thesis
    by blast
qed

text \<open>
  C7 as the specification states it fails: object 2 0 of \<open>two_links_doc\<close> is the number 1, the bytes
  \<open>1\<close> parse to the number 1, and \<^verbatim>\<open>SetRawData\<close> returns true although the value after
  the call equals the value before.
\<close>

theorem SetRawData_same_value_counterexample:
  "table_tokenizer ''1'' = Inr (PdfNumber 1)
   \<and> deref (m_pDoc browsed_tree) (ObjPtr (PdfReference 2 0) []) = Some (PdfNumber 1)
   \<and> result_of (via 4 (\<lambda>t this. SetRawData table_tokenizer t this ''1'') browsed_tree) = Inr True
   \<and> deref (m_pDoc (state_of (via 4 (\<lambda>t this. SetRawData table_tokenizer t this ''1'') browsed_tree)))
        (ObjPtr (PdfReference 2 0) []) = Some (PdfNumber 1)"
  by code_simp

subsection \<open>Inserting an array element\<close>

lemma array_insert_facts:
  assumes "r \<le> length xs"
  shows "length (array_insert r v xs) = Suc (length xs)"
    and "array_insert r v xs ! r = v"
    and "\<forall>i < r. array_insert r v xs ! i = xs ! i"
    and "\<forall>i. r \<le> i \<and> i < length xs \<longrightarrow> array_insert r v xs ! Suc i = xs ! i"
  using assms
  by (auto simp: array_insert_def nth_append min_def Suc_diff_le)

lemma child_specs_array [simp]:
  "child_specs doc follow ptr (PdfArray xs)
     = map (\<lambda>i. (inside ptr (ElementSlot i), PT_Contained, KeyNull)) [0 ..< length xs]"
  by (simp add: child_specs_def)

text \<open>
  C5, as amended. \<^verbatim>\<open>CanInsertElement(row)\<close> never holds for a node that wraps a non-array
  object. For a node that wraps an array of \<open>length xs\<close> elements, does not pretend to
  be empty and whose child list is in sync with the array, it holds exactly for
  \<open>0 < row \<le> length xs\<close>; for such a row \<^verbatim>\<open>InsertElement(row)\<close> returns normally and the
  array is then one longer, holds null at index \<open>row\<close>, holds the old elements below
  \<open>row\<close> where they were and the old elements from \<open>row\<close> on one place further up.
\<close>

theorem InsertElement_on_synced_array:
  "(\<forall>obj. deref (m_pDoc t) (m_pObject n) = Some obj \<and> \<not> IsArray obj \<longrightarrow>
      (\<exists>s. CanInsertElement t n row = Return False s))
   \<and> (\<forall>xs. deref (m_pDoc t) (m_pObject n) = Some (PdfArray xs) \<and> in_sync t n \<and> \<not> m_bPretendEmpty n \<longrightarrow>
        (\<exists>s. CanInsertElement t n row = Return (0 < row \<and> row \<le> int (length xs)) s)
        \<and> (0 < row \<and> row \<le> int (length xs) \<longrightarrow>
             (\<exists>t' n'. InsertElement t n row = Return () (t', n')
                \<and> m_pObject n' = m_pObject n
                \<and> deref (m_pDoc t') (m_pObject n) = Some (PdfArray (array_insert (nat row) PdfNull xs))
                \<and> length (array_insert (nat row) PdfNull xs) = length xs + 1
                \<and> array_insert (nat row) PdfNull xs ! nat row = PdfNull
                \<and> (\<forall>i < nat row. array_insert (nat row) PdfNull xs ! i = xs ! i)
                \<and> (\<forall>i. nat row \<le> i \<and> i < length xs \<longrightarrow>
                       array_insert (nat row) PdfNull xs ! Suc i = xs ! i))))"
proof (intro conjI allI impI; (elim conjE)?)
  fix obj assume "deref (m_pDoc t) (m_pObject n) = Some obj" "\<not> IsArray obj"
  then show "\<exists>s. CanInsertElement t n row = Return False s"
    using CountChildren_state [of t n] EnsureChildrenLoaded_step [of t n]
      PopulateChildren_result [of n t obj]
    by (auto simp: CanInsertElement_def CountChildren_def EnsureChildrenLoaded_def
          IsPretendEmpty_def split: outcome.splits option.splits)
next
  fix xs
  assume d: "deref (m_pDoc t) (m_pObject n) = Some (PdfArray xs)"
    and sync: "in_sync t n" and pe: "\<not> m_bPretendEmpty n"
  from CountChildren_in_sync [OF sync pe] d obtain t1 n1 where
    c: "CountChildren t n = Return (int (length (child_view n1))) (t1, n1)"
    and same: "m_pDoc t1 = m_pDoc t" "m_pObject n1 = m_pObject n"
    and v: "child_view n1 = child_specs (m_pDoc t) (m_bFollowReferences t) (m_pObject n) (PdfArray xs)"
    by blast
  from v have len: "length (child_view n1) = length xs"
    by simp
  have can: "CanInsertElement t n row
      = (if 0 < row then Return (row \<le> int (length xs)) (t1, n1) else Return False (t, n))"
    using c same d by (simp add: CanInsertElement_def len)
  then show "\<exists>s. CanInsertElement t n row = Return (0 < row \<and> row \<le> int (length xs)) s"
    by auto
  assume row: "0 < row" "row \<le> int (length xs)"
  from assign_deref [of "m_pDoc t" "m_pObject n" "PdfArray xs" "PdfArray (array_insert (nat row) PdfNull xs)"] d
  obtain doc' where doc': "assign (m_pDoc t) (m_pObject n) (PdfArray (array_insert (nat row) PdfNull xs)) = Some doc'"
    "deref doc' (m_pObject n) = Some (PdfArray (array_insert (nat row) PdfNull xs))"
    by blast
  from row have r: "nat row \<le> length xs"
    by simp
  from can row doc' same d r array_insert_facts [OF r, of PdfNull]
  show "\<exists>t' n'. InsertElement t n row = Return () (t', n')
                \<and> m_pObject n' = m_pObject n
                \<and> deref (m_pDoc t') (m_pObject n) = Some (PdfArray (array_insert (nat row) PdfNull xs))
                \<and> length (array_insert (nat row) PdfNull xs) = length xs + 1
                \<and> array_insert (nat row) PdfNull xs ! nat row = PdfNull
                \<and> (\<forall>i < nat row. array_insert (nat row) PdfNull xs ! i = xs ! i)
                \<and> (\<forall>i. nat row \<le> i \<and> i < length xs \<longrightarrow>
                       array_insert (nat row) PdfNull xs ! Suc i = xs ! i)"
    by (simp add: InsertElement_def)
qed

theorem InsertElement_on_synced_array_witness:
  "deref (m_pDoc container_tree) (m_pObject kids_node)
     = Some (PdfArray [PdfNumber 10, PdfNumber 20, PdfNumber 30])
   \<and> in_sync container_tree kids_node \<and> \<not> m_bPretendEmpty kids_node
   \<and> (\<exists>s. CanInsertElement container_tree kids_node 2 = Return True s)
   \<and> (\<exists>t' n'. InsertElement container_tree kids_node 2 = Return () (t', n')
         \<and> deref (m_pDoc t') (m_pObject kids_node)
             = Some (PdfArray [PdfNumber 10, PdfNumber 20, PdfNull, PdfNumber 30]))
   \<and> deref (m_pDoc container_tree) (m_pObject (m_pRoot container_tree))
       = Some (PdfDictionary [(''Info'', PdfDictionary [(''Author'', PdfNumber 7)]),
                              (''Kids'', PdfArray [PdfNumber 10, PdfNumber 20, PdfNumber 30])])
   \<and> (\<exists>s. CanInsertElement container_tree (m_pRoot container_tree) 1 = Return False s)"
proof -
  have d: "deref (m_pDoc container_tree) (m_pObject kids_node)
     = Some (PdfArray [PdfNumber 10, PdfNumber 20, PdfNumber 30])"
    and s: "in_sync container_tree kids_node" and p: "\<not> m_bPretendEmpty kids_node"
    and d0: "deref (m_pDoc container_tree) (m_pObject (m_pRoot container_tree))
       = Some (PdfDictionary [(''Info'', PdfDictionary [(''Author'', PdfNumber 7)]),
                              (''Kids'', PdfArray [PdfNumber 10, PdfNumber 20, PdfNumber 30])])"
    by code_simp+
  have a: "array_insert (nat 2) PdfNull [PdfNumber 10, PdfNumber 20, PdfNumber 30]
      = [PdfNumber 10, PdfNumber 20, PdfNull, PdfNumber 30]"
    by code_simp
  from InsertElement_on_synced_array [of container_tree kids_node 2] d s p a
  have "(\<exists>s. CanInsertElement container_tree kids_node 2 = Return True s)
     \<and> (\<exists>t' n'. InsertElement container_tree kids_node 2 = Return () (t', n')
         \<and> deref (m_pDoc t') (m_pObject kids_node)
             = Some (PdfArray [PdfNumber 10, PdfNumber 20, PdfNull, PdfNumber 30]))"
    by auto
  moreover from InsertElement_on_synced_array [of container_tree "m_pRoot container_tree" 1] d0
  have "\<exists>s. CanInsertElement container_tree (m_pRoot container_tree) 1 = Return False s"
    by auto
  ultimately show ?thesis
    using d s p d0 by simp
qed

text \<open>
  C5 as the specification states it fails in two ways, both on the array of three
  elements under /Kids. While the node pretends to be empty, \<^verbatim>\<open>CanInsertElement(1)\<close> is false. And
  after \<^verbatim>\<open>InsertElement(2)\<close> the array has four elements, but the node still counts the
  three children it had loaded, so \<^verbatim>\<open>CanInsertElement(4)\<close> is false.
\<close>

theorem CanInsertElement_counterexample:
  "map_option m_pObject (find_node (m_pRoot container_tree) 2) = Some Kids
   \<and> deref (m_pDoc container_tree) Kids = Some (PdfArray [PdfNumber 10, PdfNumber 20, PdfNumber 30])
   \<and> result_of (via 2 (\<lambda>t this. CanInsertElement t this 1)
        (state_of (via 2 (\<lambda>t this. Return () (t, SetPretendEmpty this True)) container_tree)))
       = Inr False
   \<and> result_of (via 2 (\<lambda>t this. InsertElement t this 2) container_tree) = Inr ()
   \<and> deref (m_pDoc (state_of (via 2 (\<lambda>t this. InsertElement t this 2) container_tree))) Kids
       = Some (PdfArray [PdfNumber 10, PdfNumber 20, PdfNull, PdfNumber 30])
   \<and> result_of (via 2 (\<lambda>t this. CanInsertElement t this 4)
        (state_of (via 2 (\<lambda>t this. InsertElement t this 2) container_tree)))
       = Inr False"
  by code_simp

subsection \<open>Editing through one of two aliases\<close>

text \<open>
  C3, on a failing input. Nodes 4 and 5 both wrap object 2 0, the number 1, and both
  have loaded their (no) children. \<^verbatim>\<open>setData\<close> through the index of node 4 with bytes that
  parse to an array of two elements returns true. \<^verbatim>\<open>PrepareForSubtreeChange\<close> returned
  early because node 4 had no children, so node 5 was never invalidated: afterwards
  node 4 reports two rows and its alias node 5 reports none.
\<close>

theorem setData_leaves_alias_stale:
  "aliases_in browsed_model (ObjPtr (PdfReference 2 0) []) = [4, 5]
   \<and> result_of (rowCount browsed_model (createIndex 0 0 4)) = Inr 0
   \<and> result_of (rowCount browsed_model (createIndex 0 0 5)) = Inr 0
   \<and> result_of (setData table_tokenizer browsed_model (createIndex 0 2 4) (Some ''[1 2]'')) = Inr True
   \<and> object_at (state_of (setData table_tokenizer browsed_model (createIndex 0 2 4) (Some ''[1 2]'')))
        (ObjPtr (PdfReference 2 0) []) = Some (PdfArray [PdfNumber 1, PdfNumber 2])
   \<and> aliases_in (state_of (setData table_tokenizer browsed_model (createIndex 0 2 4) (Some ''[1 2]'')))
        (ObjPtr (PdfReference 2 0) []) = [4, 5]
   \<and> result_of (rowCount
        (state_of (setData table_tokenizer browsed_model (createIndex 0 2 4) (Some ''[1 2]'')))
        (createIndex 0 0 4)) = Inr 2
   \<and> result_of (rowCount
        (state_of (setData table_tokenizer browsed_model (createIndex 0 2 4) (Some ''[1 2]'')))
        (createIndex 0 0 5)) = Inr 0"
  by code_simp

subsection \<open>Inserting a dictionary key through the model\<close>

text \<open>
  C6, on a failing input. The index of row 0 under the root is the node of the /Info
  dictionary, which has no key X. \<^verbatim>\<open>insertKey\<close> with that index returns true, but the key
  went into the root's dictionary (the catalog); the /Info dictionary is unchanged. With
  the key Kids, which /Info does not have but the catalog has, it returns false.
\<close>

theorem insertKey_inserts_into_root:
  "result_of (index container_model 0 0 (createIndex 0 0 0)) = Inr (createIndex 0 0 1)
   \<and> aliases_in container_model Info = [1]
   \<and> object_at container_model Info = Some (PdfDictionary [(''Author'', PdfNumber 7)])
   \<and> result_of (insertKey container_model ''X'' (createIndex 0 0 1)) = Inr True
   \<and> object_at (state_of (insertKey container_model ''X'' (createIndex 0 0 1))) Info
       = Some (PdfDictionary [(''Author'', PdfNumber 7)])
   \<and> object_at (state_of (insertKey container_model ''X'' (createIndex 0 0 1)))
        (ObjPtr (PdfReference 1 0) [])
       = Some (PdfDictionary [(''Info'', PdfDictionary [(''Author'', PdfNumber 7)]),
                              (''Kids'', PdfArray [PdfNumber 10, PdfNumber 20, PdfNumber 30]),
                              (''X'', PdfNull)])
   \<and> result_of (insertKey container_model ''Kids'' (createIndex 0 0 1)) = Inr False"
  by code_simp

end
